theory Spec2Isabelle
  imports Complex_Main "HOL-Library.Multiset" "HOL-Library.Sublist"
begin

section \<open>JavaScript values used by the typography engine\<close>

text \<open>
  A JavaScript number is an IEEE double. The finite doubles are modelled by their values in
  \<^typ>\<open>real\<close>; an infinity and \<open>NaN\<close>, which a division or a product with an undefined
  operand can give, are further values of \<open>number\<close>. The products of \<open>autoFitText\<close> and the
  quotients of \<open>analyzeHierarchy\<close>, whose results the code compares with bounds, are rounded
  to the nearest double as the machine rounds them (\<open>round_double\<close> below); a decimal literal
  of these functions stands for the double nearest to it.
\<close>

datatype number = Finite real | PosInfinity | NegInfinity | NaN

text \<open>An optional numeric property of a parsed JSON object: \<open>None\<close> is \<open>undefined\<close>.\<close>

definition truthy :: "real option \<Rightarrow> bool" where
  "truthy x = (case x of None \<Rightarrow> False | Some v \<Rightarrow> v \<noteq> 0)"

text \<open>The idiom \<open>x || d\<close> on an optional number.\<close>

definition or_default :: "real option \<Rightarrow> real \<Rightarrow> real" where
  "or_default x d = (case x of None \<Rightarrow> d | Some v \<Rightarrow> if v = 0 then d else v)"

section \<open>Rounding to the nearest double\<close>

text \<open>
  \<open>binade a\<close> is the largest power of two that is at most \<open>a\<close>, for a positive \<open>a\<close>: it is
  found by halving a number from 1 upwards, or doubling a number below 1, until the number
  lies in \<open>[1, 2)\<close>.
\<close>

function scale_up :: "real \<Rightarrow> real \<Rightarrow> real" where
  "scale_up a s = (if a < 2 then s else scale_up (a / 2) (2 * s))"
  by pat_completeness auto
termination
proof (relation "measure (\<lambda>(a, s). nat \<lfloor>a\<rfloor>)")
  show "wf (measure (\<lambda>(a, s). nat \<lfloor>a\<rfloor>))" by simp
next
  fix a s :: real
  assume "\<not> a < 2"
  then have a: "2 \<le> a" by simp
  then have "a / 2 \<le> a - 1" by simp
  then have "\<lfloor>a / 2\<rfloor> \<le> \<lfloor>a - 1\<rfloor>" by (rule floor_mono)
  moreover have "\<lfloor>a - 1\<rfloor> = \<lfloor>a\<rfloor> - 1" by simp
  moreover have "1 \<le> \<lfloor>a\<rfloor>" using a by (simp add: le_floor_iff)
  ultimately have "nat \<lfloor>a / 2\<rfloor> < nat \<lfloor>a\<rfloor>" by linarith
  then show "((a / 2, 2 * s), (a, s)) \<in> measure (\<lambda>(a, s). nat \<lfloor>a\<rfloor>)" by simp
qed

function scale_down :: "real \<Rightarrow> real \<Rightarrow> real" where
  "scale_down a s = (if 1 \<le> a \<or> a \<le> 0 then s else scale_down (2 * a) (s / 2))"
  by pat_completeness auto
termination
proof (relation "measure (\<lambda>(a, s). nat \<lceil>1 / a\<rceil>)")
  show "wf (measure (\<lambda>(a, s). nat \<lceil>1 / a\<rceil>))" by simp
next
  fix a s :: real
  assume "\<not> (1 \<le> a \<or> a \<le> 0)"
  then have a: "0 < a" "a < 1" by simp_all
  let ?y = "1 / a"
  have y: "1 < ?y" using a by simp
  have half: "1 / (2 * a) = ?y / 2" by simp
  have "\<lceil>?y / 2\<rceil> < \<lceil>?y\<rceil>"
  proof (cases "?y \<le> 2")
    case True
    then have "\<lceil>?y / 2\<rceil> \<le> 1" by (simp add: ceiling_le_iff)
    moreover have "2 \<le> \<lceil>?y\<rceil>" using y by (simp add: le_ceiling_iff)
    ultimately show ?thesis by linarith
  next
    case False
    then have "?y / 2 \<le> ?y - 1" by simp
    then have "\<lceil>?y / 2\<rceil> \<le> \<lceil>?y - 1\<rceil>" by (rule ceiling_mono)
    then show ?thesis by simp
  qed
  moreover have "?y \<le> of_int \<lceil>?y\<rceil>" by (rule le_of_int_ceiling)
  then have "0 < \<lceil>?y\<rceil>" using y by linarith
  ultimately have "nat \<lceil>1 / (2 * a)\<rceil> < nat \<lceil>?y\<rceil>" unfolding half by linarith
  then show "((2 * a, s / 2), (a, s)) \<in> measure (\<lambda>(a, s). nat \<lceil>1 / a\<rceil>)" by simp
qed

declare scale_up.simps [simp del] scale_down.simps [simp del]

definition binade :: "real \<Rightarrow> real" where
  "binade a = (if 1 \<le> a then scale_up a 1 else scale_down a 1)"

text \<open>The nearest integer, the even one of two that are equally near.\<close>

definition round_half_even :: "real \<Rightarrow> int" where
  "round_half_even y =
     (let f = \<lfloor>y\<rfloor>
      in if y - of_int f < 1 / 2 then f
         else if y - of_int f > 1 / 2 then f + 1
         else if even f then f else f + 1)"

text \<open>
  The doubles of the binade of \<open>a\<close> are the multiples of \<open>binade a / 2^52\<close>; below \<open>2^-1022\<close> the
  spacing stays \<open>2^-1074\<close>. \<open>round_double x\<close> is the multiple nearest to \<open>x\<close>, ties to the even
  multiple. A result of magnitude \<open>2^1024\<close> or more stands for an overflow, which is an
  infinity in JavaScript (\<open>js_round\<close>).
\<close>

definition round_double :: "real \<Rightarrow> real" where
  "round_double x =
     (if x = 0 then 0
      else
        let a = \<bar>x\<bar>;
            ulp = max (binade a) (1 / 2 ^ 1022) / 2 ^ 52
        in sgn x * (of_int (round_half_even (a / ulp)) * ulp))"

definition js_round :: "real \<Rightarrow> number" where
  "js_round x =
     (let r = round_double x
      in if 2 ^ 1024 \<le> r then PosInfinity
         else if r \<le> - (2 ^ 1024) then NegInfinity
         else Finite r)"

section \<open>Host text frames\<close>

datatype kern_type = NOAUTOKERN | AUTO | OPTICAL | METRICSROMANONLY

datatype justification_type = LEFT | CENTER | RIGHT | FULLJUSTIFY | FULLJUSTIFYLASTLINELEFT

record rgb_color =
  red :: number
  green :: number
  blue :: number

text \<open>
  A page item of the selection. \<open>font_size\<close> is \<open>textRange.characterAttributes.size\<close>,
  \<open>leading\<close> is \<open>textRange.paragraphAttributes.leading\<close>, \<open>tracking\<close>, \<open>textFont\<close>,
  \<open>fillColor\<close> and \<open>autoKernType\<close> are character attributes, \<open>justification\<close> is a
  paragraph attribute and \<open>contents\<close> is \<open>textRange.contents\<close>.
\<close>

record text_frame =
  typename :: string
  contents :: string
  font_size :: real
  leading :: number
  tracking :: real
  textFont :: string
  fillColor :: rgb_color
  autoKernType :: kern_type
  justification :: justification_type

section \<open>autoFitText\<close>

record fit_params =
  baseFontSize :: "real option"
  maxFontSize :: "real option"

text \<open>
  The host answers every read of \<open>textFrame.overflowed\<close>. A probe is the sequence of its
  answers: \<open>probe k\<close> is the answer to read number \<open>k\<close> (from 0). The solver threads the
  frame and the number of reads made so far, and returns both.

  \<open>while (textFrame.overflowed && iteration < maxIterations) { size *= 0.95; iteration++ }\<close>:
  the probe is the first conjunct, so it is read at every test of the loop condition. The
  product is that of the size and the double \<open>0.95\<close>, rounded to a double. (A product beyond
  the largest double, an infinity in JavaScript, is not modelled: a font size is a real.)
\<close>

function shrink_loop ::
  "(nat \<Rightarrow> bool) \<Rightarrow> nat \<Rightarrow> nat \<Rightarrow> text_frame \<Rightarrow> nat \<Rightarrow> text_frame \<times> nat" where
  "shrink_loop probe maxIterations iteration tf k =
     (if probe k \<and> iteration < maxIterations
      then shrink_loop probe maxIterations (Suc iteration)
             (tf\<lparr>font_size := round_double (font_size tf * round_double 0.95)\<rparr>) (Suc k)
      else (tf, Suc k))"
  by pat_completeness auto
termination
  by (relation "measure (\<lambda>(probe, maxIterations, iteration, tf, k). maxIterations - iteration)") auto

declare shrink_loop.simps [simp del]

text \<open>
  The grow loop reads the probe in its condition and once more in its body, after the
  size has been multiplied by 1.05; an overflow there multiplies by 0.95 and leaves the loop.
\<close>

function grow_loop ::
  "(nat \<Rightarrow> bool) \<Rightarrow> real \<Rightarrow> nat \<Rightarrow> nat \<Rightarrow> text_frame \<Rightarrow> nat \<Rightarrow> text_frame \<times> nat" where
  "grow_loop probe maxSize maxIterations iteration tf k =
     (if \<not> probe k \<and> font_size tf < maxSize \<and> iteration < maxIterations
      then (let tf1 = tf\<lparr>font_size := round_double (font_size tf * round_double 1.05)\<rparr>
            in if probe (Suc k)
               then (tf1\<lparr>font_size := round_double (font_size tf1 * round_double 0.95)\<rparr>,
                     Suc (Suc k))
               else grow_loop probe maxSize maxIterations (Suc iteration) tf1 (Suc (Suc k)))
      else (tf, Suc k))"
  by pat_completeness auto
termination
  by (relation "measure (\<lambda>(probe, maxSize, maxIterations, iteration, tf, k). maxIterations - iteration)")
     auto

declare grow_loop.simps [simp del]

definition autoFitText :: "(nat \<Rightarrow> bool) \<Rightarrow> text_frame \<Rightarrow> fit_params \<Rightarrow> text_frame \<times> nat" where
  "autoFitText probe textFrame params =
     (let maxIterations = 20;
          base = or_default (baseFontSize params) 12;
          maxSize = or_default (maxFontSize params) 72;
          started = textFrame\<lparr>font_size := base\<rparr>
      in case shrink_loop probe maxIterations 0 started 0 of
           (shrunk, k) \<Rightarrow> grow_loop probe maxSize maxIterations 0 shrunk k)"

definition sample_frame :: text_frame where
  "sample_frame = \<lparr>typename = ''TextFrame'', contents = ''Title'', font_size = 10,
     leading = Finite 12, tracking = 0, textFont = ''Arial'',
     fillColor = \<lparr>red = Finite 0, green = Finite 0, blue = Finite 0\<rparr>,
     autoKernType = AUTO, justification = LEFT\<rparr>"

section \<open>Strings\<close>

text \<open>
  \<open>s.indexOf(t)\<close>: the first position at which \<open>t\<close> occurs in \<open>s\<close>, or \<open>-1\<close>.
  \<open>s.includes(t)\<close> holds when there is such a position.
\<close>

fun indexOf_from :: "string \<Rightarrow> string \<Rightarrow> int \<Rightarrow> int" where
  "indexOf_from [] t i = (if t = [] then i else - 1)"
| "indexOf_from (c # s) t i = (if prefix t (c # s) then i else indexOf_from s t (i + 1))"

definition indexOf :: "string \<Rightarrow> string \<Rightarrow> int" where
  "indexOf s t = indexOf_from s t 0"

definition str_includes :: "string \<Rightarrow> string \<Rightarrow> bool" where
  "str_includes s t = (indexOf s t \<noteq> - 1)"

text \<open>\<open>toLowerCase\<close> on the letters A to Z; every other character is kept.\<close>

definition lower_char :: "char \<Rightarrow> char" where
  "lower_char c =
     (case map_of (zip ''ABCDEFGHIJKLMNOPQRSTUVWXYZ'' ''abcdefghijklmnopqrstuvwxyz'') c of
        Some l \<Rightarrow> l
      | None \<Rightarrow> c)"

definition toLowerCase :: "string \<Rightarrow> string" where
  "toLowerCase s = map lower_char s"

text \<open>\<open>xs.join(sep)\<close>.\<close>

fun join :: "string \<Rightarrow> string list \<Rightarrow> string" where
  "join sep [] = []"
| "join sep [x] = x"
| "join sep (x # y # ys) = x @ sep @ join sep (y # ys)"

text \<open>\<open>[...new Set(xs)]\<close>: the distinct members of \<open>xs\<close> in the order of their first occurrence.\<close>

definition unique :: "'a list \<Rightarrow> 'a list" where
  "unique xs = fold (\<lambda>x seen. if x \<in> set seen then seen else seen @ [x]) xs []"

section \<open>TypographyAnalyzer\<close>

record text_element =
  family :: string
  fontSize :: real
  lineHeight :: real
  lineLength :: "int option"
  characterSpacing :: "real option"

datatype result_type = Success | Info | Warning | Error

datatype result_category = FontPairing | Readability | Hierarchy

record analysis_result =
  rtype :: result_type
  category :: result_category
  message :: string
  suggestions :: "string list"

subsection \<open>categorizeFontFamily and analyzeFontPairing\<close>

datatype font_category = serif | sansSerif | script | monospace

fun category_name :: "font_category \<Rightarrow> string" where
  "category_name serif = ''serif''"
| "category_name sansSerif = ''sansSerif''"
| "category_name script = ''script''"
| "category_name monospace = ''monospace''"

definition fontCategories :: "(font_category \<times> string list) list" where
  "fontCategories =
     [(serif, [''Times'', ''Georgia'', ''Minion'', ''Garamond'', ''Baskerville'']),
      (sansSerif, [''Helvetica'', ''Arial'', ''Futura'', ''Avenir'', ''Proxima'']),
      (script, [''Script'', ''Brush'', ''Handwriting'', ''Calligraphy'']),
      (monospace, [''Courier'', ''Monaco'', ''Consolas'', ''Menlo''])]"

definition categorizeFontFamily :: "string \<Rightarrow> font_category" where
  "categorizeFontFamily fontFamily =
     (let fam = toLowerCase fontFamily
      in case find (\<lambda>(cat, fonts). list_ex (\<lambda>font. str_includes fam (toLowerCase font)) fonts)
                fontCategories of
           Some (cat, fonts) \<Rightarrow> cat
         | None \<Rightarrow>
             if str_includes fam ''serif'' then serif
             else if str_includes fam ''sans'' \<or> str_includes fam ''arial''
                     \<or> str_includes fam ''helvetica'' then sansSerif
             else if str_includes fam ''mono'' \<or> str_includes fam ''courier'' then monospace
             else if str_includes fam ''script'' \<or> str_includes fam ''italic'' then script
             else sansSerif)"

definition analyzeFontPairing :: "text_element list \<Rightarrow> analysis_result option" where
  "analyzeFontPairing elements =
     (let fonts = unique (map family elements)
      in if length fonts < 2 then None
         else
           let categories = map categorizeFontFamily fonts;
               uniqueCategories = unique categories
           in if length uniqueCategories = 1 then
                Some \<lparr>rtype = Warning, category = FontPairing,
                  message = ''All fonts are from the same category (''
                    @ category_name (hd uniqueCategories)
                    @ ''). Consider adding contrast with a different font category.'',
                  suggestions =
                    [''Try pairing serif with sans-serif fonts'',
                     ''Use different weights within the same font family'',
                     ''Consider a script or display font for headings'']\<rparr>
              else if script \<in> set categories
                      \<and> length (filter (\<lambda>c. c = script) categories) > 1 then
                Some \<lparr>rtype = Error, category = FontPairing,
                  message = ''Multiple script fonts detected. This can create visual chaos and poor readability.'',
                  suggestions =
                    [''Use only one script font per design'',
                     ''Pair script fonts with simple sans-serif or serif fonts'',
                     ''Reserve script fonts for headings or accents only'']\<rparr>
              else
                Some \<lparr>rtype = Success, category = FontPairing,
                  message = ''Good font variety detected: ''
                    @ join '', '' (map category_name uniqueCategories)
                    @ ''. This creates nice typographic contrast.'',
                  suggestions =
                    [''Ensure sufficient size difference between font pairs'',
                     ''Test readability at final output size'']\<rparr>)"

subsection \<open>analyzeReadability\<close>






subsection \<open>analyzeHierarchy\<close>

text \<open>
  \<open>a / b\<close> on finite doubles: the quotient rounded to a double, and for a zero divisor an
  infinity or \<open>NaN\<close>. The comparisons \<open>ratio < c\<close> and \<open>ratio > c\<close> are false on \<open>NaN\<close>.
\<close>

definition js_divide :: "real \<Rightarrow> real \<Rightarrow> number" where
  "js_divide a b =
     (if b \<noteq> 0 then js_round (a / b)
      else if a > 0 then PosInfinity else if a < 0 then NegInfinity else NaN)"

fun number_less :: "number \<Rightarrow> real \<Rightarrow> bool" where
  "number_less (Finite x) c = (x < c)"
| "number_less PosInfinity c = False"
| "number_less NegInfinity c = True"
| "number_less NaN c = False"

fun number_greater :: "number \<Rightarrow> real \<Rightarrow> bool" where
  "number_greater (Finite x) c = (x > c)"
| "number_greater PosInfinity c = True"
| "number_greater NegInfinity c = False"
| "number_greater NaN c = False"

text \<open>\<open>sizes.sort((a, b) => b - a)\<close>: descending order.\<close>

definition sort_descending :: "real list \<Rightarrow> real list" where
  "sort_descending xs = rev (sort xs)"

text \<open>
  The bounds of a poor ratio are the doubles \<open>1.15\<close> (the double nearest to 1.15, which is
  a little below it) and \<open>3.0\<close> (which is 3).
\<close>

definition analyzeHierarchy :: "text_element list \<Rightarrow> analysis_result option" where
  "analyzeHierarchy elements =
     (if length elements < 2 then None
      else
        let fontSizes = sort_descending (map fontSize elements);
            ratios = map (\<lambda>i. js_divide (fontSizes ! i) (fontSizes ! (i + 1)))
                       [0..<length fontSizes - 1];
            poorRatios = filter (\<lambda>ratio. number_less ratio (round_double 1.15)
                                          \<or> number_greater ratio 3.0) ratios
        in if length poorRatios > 0 then
             Some \<lparr>rtype = Info, category = Hierarchy,
               message = ''Typography hierarchy could be improved with better size relationships.'',
               suggestions =
                 [''Use consistent scale ratios (1.25x, 1.5x, 2x)'',
                  ''Ensure minimum 1.2x difference between hierarchy levels'',
                  ''Consider using weight and color for additional hierarchy'']\<rparr>
           else
             Some \<lparr>rtype = Success, category = Hierarchy,
               message = ''Good typography hierarchy detected with appropriate size relationships.'',
               suggestions =
                 [''Maintain consistent hierarchy across all pages'',
                  ''Test hierarchy effectiveness with actual content'']\<rparr>)"

section \<open>Typography fixes on the selection\<close>

text \<open>
  The \<open>parameters\<close> object of a fix. \<open>opticalKerning\<close> and \<open>kerningPairs\<close> are only tested
  for truth. A fix mutates the frames of the selection in place; the model returns the
  selection after the fix together with the list of results.
\<close>

record fix_parameters =
  opticalKerning :: bool
  kerningPairs :: bool
  param_tracking :: "real option"
  scaleRatio :: "real option"
  baseSize :: "real option"
  param_lineHeight :: "real option"
  param_characterSpacing :: "real option"
  alignment :: "string option"

datatype fix_result =
    KerningApplied nat
  | SizeChanged nat real real
  | ReadabilityImproved nat
  | AlignmentApplied nat "string option"

definition applyKerningFix ::
  "text_frame list \<Rightarrow> fix_parameters \<Rightarrow> text_frame list \<times> fix_result list" where
  "applyKerningFix selection parameters =
     fold (\<lambda>i (sel, results).
        if typename (sel ! i) = ''TextFrame'' then
          let t1 = (if opticalKerning parameters then (sel ! i)\<lparr>autoKernType := OPTICAL\<rparr>
                    else sel ! i);
              t2 = (if kerningPairs parameters
                    then t1\<lparr>tracking := or_default (param_tracking parameters) 0\<rparr> else t1)
          in (sel[i := t2], results @ [KerningApplied i])
        else (sel, results))
      [0..<length selection] (selection, [])"

subsection \<open>applyHierarchyFix\<close>

text \<open>An entry \<open>{frame, size, index}\<close> of the local array; \<open>frame\<close> is \<open>selection[index]\<close>.\<close>

record frame_entry =
  entry_index :: nat
  entry_size :: real

record size_change =
  index :: nat
  oldSize :: real
  newSize :: real

definition collect_text_frames :: "text_frame list \<Rightarrow> frame_entry list" where
  "collect_text_frames selection =
     map (\<lambda>i. \<lparr>entry_index = i, entry_size = font_size (selection ! i)\<rparr>)
       (filter (\<lambda>i. typename (selection ! i) = ''TextFrame'') [0..<length selection])"

text \<open>
  \<open>textFrames.sort(function(a, b) { return b.size - a.size; })\<close>: descending by size. The
  order among entries of equal size is the order of the selection (a stable sort).
\<close>

definition sort_by_size_descending :: "frame_entry list \<Rightarrow> frame_entry list" where
  "sort_by_size_descending entries = sort_key (\<lambda>e. - entry_size e) entries"

definition scaled_size :: "fix_parameters \<Rightarrow> nat \<Rightarrow> nat \<Rightarrow> frame_entry \<Rightarrow> real" where
  "scaled_size parameters n j item =
     (let baseRatio = or_default (scaleRatio parameters) 1.25
      in case baseSize parameters of
           None \<Rightarrow> entry_size item
         | Some b \<Rightarrow> if b = 0 then entry_size item else b * baseRatio ^ (n - j - 1))"

definition applyHierarchyFix ::
  "text_frame list \<Rightarrow> fix_parameters \<Rightarrow> text_frame list \<times> size_change list" where
  "applyHierarchyFix selection parameters =
     (let textFrames = sort_by_size_descending (collect_text_frames selection)
      in fold (\<lambda>j (sel, results).
           let item = textFrames ! j;
               new = scaled_size parameters (length textFrames) j item
           in (sel[entry_index item := (sel ! entry_index item)\<lparr>font_size := new\<rparr>],
               results @ [\<lparr>index = entry_index item, oldSize = entry_size item, newSize = new\<rparr>]))
         [0..<length textFrames] (selection, []))"

definition applyReadabilityFix ::
  "text_frame list \<Rightarrow> fix_parameters \<Rightarrow> text_frame list \<times> fix_result list" where
  "applyReadabilityFix selection parameters =
     fold (\<lambda>i (sel, results).
        if typename (sel ! i) = ''TextFrame'' then
          let t1 = (case param_lineHeight parameters of
                      None \<Rightarrow> sel ! i
                    | Some h \<Rightarrow> if h = 0 then sel ! i
                               else (sel ! i)\<lparr>leading := Finite (font_size (sel ! i) * h)\<rparr>);
              t2 = (case param_characterSpacing parameters of
                      None \<Rightarrow> t1
                    | Some c \<Rightarrow> if c = 0 then t1 else t1\<lparr>tracking := c\<rparr>)
          in (sel[i := t2], results @ [ReadabilityImproved i])
        else (sel, results))
      [0..<length selection] (selection, [])"

definition applyAlignmentFix ::
  "text_frame list \<Rightarrow> fix_parameters \<Rightarrow> text_frame list \<times> fix_result list" where
  "applyAlignmentFix selection parameters =
     fold (\<lambda>i (sel, results).
        if typename (sel ! i) = ''TextFrame'' then
          let t1 = (case alignment parameters of
                      None \<Rightarrow> sel ! i
                    | Some a \<Rightarrow>
                        if a = ''left'' then (sel ! i)\<lparr>justification := LEFT\<rparr>
                        else if a = ''center'' then (sel ! i)\<lparr>justification := CENTER\<rparr>
                        else if a = ''right'' then (sel ! i)\<lparr>justification := RIGHT\<rparr>
                        else if a = ''justify'' then (sel ! i)\<lparr>justification := FULLJUSTIFY\<rparr>
                        else sel ! i)
          in (sel[i := t1], results @ [AlignmentApplied i (alignment parameters)])
        else (sel, results))
      [0..<length selection] (selection, [])"

subsection \<open>applyTypographyFix\<close>

text \<open>
  The JSON text that a request returns: \<open>{success: true, fixType, results}\<close> or
  \<open>{success: false, error}\<close>. The first argument is the selection of the active document,
  \<open>None\<close> when no document is open. \<open>throw new Error(m)\<close> is caught by the handler of the
  same function, which reports \<open>error.toString()\<close>, the text \<open>Error: m\<close>.
\<close>

datatype fix_response = FixSucceeded string "fix_result list" | FixFailed string

definition applyTypographyFix ::
  "text_frame list option \<Rightarrow> string \<Rightarrow> fix_parameters \<Rightarrow> fix_response \<times> text_frame list option" where
  "applyTypographyFix document fixType parameters =
     (case document of
        None \<Rightarrow> (FixFailed ''No document is open'', None)
      | Some selection \<Rightarrow>
          if fixType = ''kerning'' then
            (case applyKerningFix selection parameters of
               (sel, results) \<Rightarrow> (FixSucceeded fixType results, Some sel))
          else if fixType = ''hierarchy'' then
            (case applyHierarchyFix selection parameters of
               (sel, results) \<Rightarrow>
                 (FixSucceeded fixType
                    (map (\<lambda>r. SizeChanged (index r) (oldSize r) (newSize r)) results), Some sel))
          else if fixType = ''readability'' then
            (case applyReadabilityFix selection parameters of
               (sel, results) \<Rightarrow> (FixSucceeded fixType results, Some sel))
          else if fixType = ''alignment'' then
            (case applyAlignmentFix selection parameters of
               (sel, results) \<Rightarrow> (FixSucceeded fixType results, Some sel))
          else (FixFailed (''Error: '' @ ''Unknown fix type: '' @ fixType), Some selection))"

section \<open>Batch formatting with rules\<close>

record format_rule =
  selector :: string
  headingThreshold :: "real option"
  rule_text :: "string option"
  rule_name :: "string option"
  fontFamily :: "string option"
  rule_fontSize :: "real option"
  rule_lineHeight :: "real option"
  rule_characterSpacing :: "real option"
  color :: "string option"

text \<open>
  \<open>contents.indexOf(rule.text)\<close> converts its argument to a string, so an absent
  \<open>rule.text\<close> is searched for as the text \<open>undefined\<close>.
\<close>

definition shouldApplyRule :: "text_frame \<Rightarrow> format_rule \<Rightarrow> bool" where
  "shouldApplyRule textFrame rule =
     (if selector rule = ''all'' then True
      else if selector rule = ''heading'' then
        font_size textFrame > or_default (headingThreshold rule) 18
      else if selector rule = ''body'' then
        font_size textFrame \<le> or_default (headingThreshold rule) 18
      else if selector rule = ''contains'' then
        indexOf (contents textFrame)
          (case rule_text rule of None \<Rightarrow> ''undefined'' | Some t \<Rightarrow> t) \<noteq> - 1
      else False)"

text \<open>\<open>s.substring(a, b)\<close> for \<open>a \<le> b\<close>.\<close>

definition substring :: "string \<Rightarrow> nat \<Rightarrow> nat \<Rightarrow> string" where
  "substring s a b = take (b - a) (drop a s)"

text \<open>
  \<open>rule.fontSize * rule.lineHeight\<close>: an undefined operand makes the product \<open>NaN\<close>.
\<close>

definition js_times :: "real option \<Rightarrow> real \<Rightarrow> number" where
  "js_times a b = (case a of None \<Rightarrow> NaN | Some x \<Rightarrow> Finite (x * b))"

text \<open>
  The host's \<open>app.textFonts.getByName\<close> is the parameter \<open>getByName\<close>: it returns the font of
  that name, or \<open>None\<close> where the host throws because it has no such font. \<open>parseInt(s, 16)\<close>
  is JavaScript's own and is the parameter \<open>parseHex\<close>.
\<close>

definition applyFormattingRule ::
  "(string \<Rightarrow> string option) \<Rightarrow> (string \<Rightarrow> number) \<Rightarrow> text_frame \<Rightarrow> format_rule \<Rightarrow> text_frame" where
  "applyFormattingRule getByName parseHex textRange rule =
     (let t1 = (case fontFamily rule of
                  None \<Rightarrow> textRange
                | Some f \<Rightarrow>
                    if f = [] then textRange
                    else (case getByName f of
                            None \<Rightarrow> textRange
                          | Some font \<Rightarrow> textRange\<lparr>textFont := font\<rparr>));
          t2 = (case rule_fontSize rule of
                  None \<Rightarrow> t1
                | Some s \<Rightarrow> if s = 0 then t1 else t1\<lparr>font_size := s\<rparr>);
          t3 = (case rule_lineHeight rule of
                  None \<Rightarrow> t2
                | Some h \<Rightarrow> if h = 0 then t2 else t2\<lparr>leading := js_times (rule_fontSize rule) h\<rparr>);
          t4 = (case rule_characterSpacing rule of
                  None \<Rightarrow> t3
                | Some c \<Rightarrow> if c = 0 then t3 else t3\<lparr>tracking := c\<rparr>);
          t5 = (case color rule of
                  None \<Rightarrow> t4
                | Some c \<Rightarrow>
                    if c = [] then t4
                    else t4\<lparr>fillColor :=
                           \<lparr>red = parseHex (substring c 1 3),
                            green = parseHex (substring c 3 5),
                            blue = parseHex (substring c 5 7)\<rparr>\<rparr>)
      in t5)"

text \<open>
  The text of \<open>"rule_" + j\<close>, for the position \<open>j\<close> of a rule without a name.
\<close>

fun digits :: "nat \<Rightarrow> nat \<Rightarrow> string" where
  "digits 0 n = []"
| "digits (Suc fuel) n =
     (if n < 10 then [''0123456789'' ! n]
      else digits fuel (n div 10) @ [''0123456789'' ! (n mod 10)])"

definition nat_to_string :: "nat \<Rightarrow> string" where
  "nat_to_string n = digits (Suc n) n"

record batch_result =
  frame_index :: nat
  appliedRules :: "string list"

text \<open>
  The inner loop of \<open>batchFormatText\<close> over the rules, for one frame: \<open>rule.name || "rule_" + j\<close>
  names an applied rule.
\<close>

definition apply_rules ::
  "(string \<Rightarrow> string option) \<Rightarrow> (string \<Rightarrow> number) \<Rightarrow> format_rule list \<Rightarrow> text_frame
     \<Rightarrow> text_frame \<times> string list" where
  "apply_rules getByName parseHex rules textFrame =
     fold (\<lambda>j (tf, applied).
        let rule = rules ! j
        in if shouldApplyRule tf rule then
             (applyFormattingRule getByName parseHex tf rule,
              applied @ [case rule_name rule of
                           None \<Rightarrow> ''rule_'' @ nat_to_string j
                         | Some n \<Rightarrow> if n = [] then ''rule_'' @ nat_to_string j else n])
           else (tf, applied))
      [0..<length rules] (textFrame, [])"

datatype batch_response = BatchSucceeded nat "batch_result list" | BatchFailed string

text \<open>
  \<open>batchFormatText\<close> on the text frames of the active document (\<open>None\<close> when no document
  is open) and the parsed rules.
\<close>

definition batchFormatText ::
  "(string \<Rightarrow> string option) \<Rightarrow> (string \<Rightarrow> number) \<Rightarrow> text_frame list option \<Rightarrow> format_rule list
     \<Rightarrow> batch_response \<times> text_frame list option" where
  "batchFormatText getByName parseHex document rules =
     (case document of
        None \<Rightarrow> (BatchFailed ''No document is open'', None)
      | Some textFrames \<Rightarrow>
          (case fold (\<lambda>i (frames, results).
                   case apply_rules getByName parseHex rules (frames ! i) of
                     (tf, applied) \<Rightarrow>
                       (frames[i := tf], results @ [\<lparr>frame_index = i, appliedRules = applied\<rparr>]))
                 [0..<length textFrames] (textFrames, []) of
             (frames, results) \<Rightarrow> (BatchSucceeded (length results) results, Some frames)))"

section \<open>Sample inputs\<close>

definition sample_element :: "string \<Rightarrow> real \<Rightarrow> real \<Rightarrow> text_element" where
  "sample_element f s h =
     \<lparr>family = f, fontSize = s, lineHeight = h, lineLength = None, characterSpacing = None\<rparr>"


section \<open>The readability checks in the words of the specification\<close>






section \<open>Sample host: fonts, colours and rules\<close>

text \<open>A host that has two fonts, and a reader of two hexadecimal digits.\<close>

definition sample_fonts :: "string \<Rightarrow> string option" where
  "sample_fonts n = (if n = ''Arial'' \<or> n = ''Georgia'' then Some n else None)"

definition hex_digit :: "char \<Rightarrow> nat option" where
  "hex_digit c =
     map_of
       [(CHR ''0'', 0), (CHR ''1'', 1), (CHR ''2'', 2), (CHR ''3'', 3),
        (CHR ''4'', 4), (CHR ''5'', 5), (CHR ''6'', 6), (CHR ''7'', 7),
        (CHR ''8'', 8), (CHR ''9'', 9), (CHR ''a'', 10), (CHR ''b'', 11),
        (CHR ''c'', 12), (CHR ''d'', 13), (CHR ''e'', 14), (CHR ''f'', 15),
        (CHR ''A'', 10), (CHR ''B'', 11), (CHR ''C'', 12), (CHR ''D'', 13),
        (CHR ''E'', 14), (CHR ''F'', 15)] c"

definition sample_parseHex :: "string \<Rightarrow> number" where
  "sample_parseHex s =
     (case map hex_digit s of
        [Some a, Some b] \<Rightarrow> Finite (real (16 * a + b))
      | _ \<Rightarrow> NaN)"

definition sample_rule :: "string \<Rightarrow> format_rule" where
  "sample_rule s =
     \<lparr>selector = s, headingThreshold = None, rule_text = None, rule_name = None,
      fontFamily = None, rule_fontSize = None, rule_lineHeight = None,
      rule_characterSpacing = None, color = None\<rparr>"

text \<open>The rule \<open>{selector: "heading", headingThreshold: 18, fontSize: 24}\<close>.\<close>

definition heading_rule :: format_rule where
  "heading_rule = (sample_rule ''heading'')\<lparr>headingThreshold := Some 18, rule_fontSize := Some 24\<rparr>"

definition sample_parameters :: fix_parameters where
  "sample_parameters =
     \<lparr>opticalKerning = False, kerningPairs = False, param_tracking = None, scaleRatio = None,
      baseSize = None, param_lineHeight = None, param_characterSpacing = None, alignment = None\<rparr>"
section \<open>Properties of the rounding\<close>

text \<open>The two searches, one step at a time; the rules evaluate \<open>binade\<close> on a numeral.\<close>

lemma scale_up_stop: "a < 2 \<Longrightarrow> scale_up a s = s"
  by (subst scale_up.simps) simp

lemma scale_up_step: "2 \<le> a \<Longrightarrow> scale_up a s = scale_up (a / 2) (2 * s)"
  by (subst scale_up.simps) simp

lemma scale_down_stop: "1 \<le> a \<or> a \<le> 0 \<Longrightarrow> scale_down a s = s"
  by (subst scale_down.simps) simp

lemma scale_down_step: "0 < a \<Longrightarrow> a < 1 \<Longrightarrow> scale_down a s = scale_down (2 * a) (s / 2)"
  by (subst scale_down.simps) simp

lemmas double_eval =
  round_double_def binade_def round_half_even_def Let_def
  scale_up_stop scale_up_step scale_down_stop scale_down_step

text \<open>The doubles that the literals 0.95, 1.05 and 1.15 stand for.\<close>

lemma double_0_95: "round_double 0.95 = 4278419646001971 / 4503599627370496"
  by (simp add: double_eval)

lemma double_1_05: "round_double 1.05 = 4728779608739021 / 4503599627370496"
  by (simp add: double_eval)

lemma double_1_15: "round_double 1.15 = 2589569785738035 / 2251799813685248"
  by (simp add: double_eval)

text \<open>The binade of a positive number is positive and not above the number.\<close>

lemma scale_up_le: "1 \<le> a \<Longrightarrow> 0 < s \<Longrightarrow> 0 < scale_up a s \<and> scale_up a s \<le> a * s"
proof (induction a s rule: scale_up.induct)
  case (1 a s)
  show ?case
  proof (cases "a < 2")
    case True
    have "s * 1 \<le> s * a" using "1.prems" by (intro mult_left_mono) simp_all
    then show ?thesis using True "1.prems" by (simp add: scale_up_stop mult.commute)
  next
    case False
    then have "0 < scale_up (a / 2) (2 * s) \<and> scale_up (a / 2) (2 * s) \<le> a / 2 * (2 * s)"
      using "1.IH" "1.prems" by simp
    then show ?thesis using False by (simp add: scale_up_step)
  qed
qed

lemma scale_down_le: "0 < a \<Longrightarrow> 0 < s \<Longrightarrow> 0 < scale_down a s \<and> scale_down a s \<le> a * s"
proof (induction a s rule: scale_down.induct)
  case (1 a s)
  show ?case
  proof (cases "1 \<le> a")
    case True
    have "s * 1 \<le> s * a" using True "1.prems" by (intro mult_left_mono) simp_all
    then show ?thesis using True "1.prems" by (simp add: scale_down_stop mult.commute)
  next
    case False
    then have "0 < scale_down (2 * a) (s / 2) \<and> scale_down (2 * a) (s / 2) \<le> 2 * a * (s / 2)"
      using "1.IH" "1.prems" by simp
    then show ?thesis using False "1.prems" by (simp add: scale_down_step)
  qed
qed

lemma binade_le: "0 < a \<Longrightarrow> 0 < binade a \<and> binade a \<le> a"
  using scale_up_le [of a 1] scale_down_le [of a 1] by (simp add: binade_def)

text \<open>Rounding to an integer moves a number by at most a half, and not across an integer.\<close>

lemma round_half_even_error: "\<bar>of_int (round_half_even y) - y\<bar> \<le> 1 / 2"
proof -
  have "of_int \<lfloor>y\<rfloor> \<le> y" "y < of_int \<lfloor>y\<rfloor> + 1" by linarith+
  then show ?thesis by (auto simp: round_half_even_def Let_def)
qed

lemma round_half_even_ge: "of_int n \<le> y \<Longrightarrow> n \<le> round_half_even y"
proof -
  assume "of_int n \<le> y"
  then have "n \<le> \<lfloor>y\<rfloor>" by (simp add: le_floor_iff)
  then show ?thesis by (auto simp: round_half_even_def Let_def)
qed

lemma round_half_even_le: "y \<le> of_int n \<Longrightarrow> round_half_even y \<le> n"
proof -
  assume y: "y \<le> of_int n"
  show ?thesis
  proof (cases "y = of_int n")
    case True
    then show ?thesis by (simp add: round_half_even_def)
  next
    case False
    then have "y < of_int n" using y by simp
    then have "\<lfloor>y\<rfloor> < n" by (simp add: floor_less_iff)
    then show ?thesis by (auto simp: round_half_even_def Let_def)
  qed
qed

text \<open>
  Rounding a positive number moves it by at most half the spacing of its binade: by at
  most \<open>x / 2^53\<close> for \<open>x\<close> from \<open>2^-1022\<close> upwards.
\<close>

lemma grid_round_error:
  fixes x ulp :: real
  assumes "0 < ulp"
  shows "\<bar>of_int (round_half_even (x / ulp)) * ulp - x\<bar> \<le> ulp / 2"
proof -
  have "of_int (round_half_even (x / ulp)) * ulp - x
          = (of_int (round_half_even (x / ulp)) - x / ulp) * ulp"
    using assms by (simp add: field_simps)
  then have "\<bar>of_int (round_half_even (x / ulp)) * ulp - x\<bar>
          = \<bar>of_int (round_half_even (x / ulp)) - x / ulp\<bar> * ulp"
    using assms by (simp add: abs_mult)
  also have "\<dots> \<le> 1 / 2 * ulp"
    using round_half_even_error [of "x / ulp"] assms by (intro mult_right_mono) simp_all
  finally show ?thesis by simp
qed

lemma round_double_positive:
  assumes "0 < x" and "m = max (binade x) (1 / 2 ^ 1022)"
  shows "round_double x = of_int (round_half_even (x / (m / 2 ^ 52))) * (m / 2 ^ 52)"
  using assms by (simp add: round_double_def Let_def)

lemma round_double_error_general:
  assumes "0 < x"
  shows "\<bar>round_double x - x\<bar> \<le> max x (1 / 2 ^ 1022) / 2 ^ 53"
proof -
  define t :: real where "t = 1 / 2 ^ 1022"
  define m where "m = max (binade x) t"
  have t: "0 < t" by (simp add: t_def)
  have m: "0 < m" using t by (simp add: m_def max_def)
  have mx: "m \<le> max x t" using binade_le [OF assms] by (simp add: m_def max_def)
  have rd: "round_double x = of_int (round_half_even (x / (m / 2 ^ 52))) * (m / 2 ^ 52)"
    by (rule round_double_positive [OF assms]) (simp only: m_def t_def)
  have "0 < m / 2 ^ 52" using m by simp
  then have "\<bar>round_double x - x\<bar> \<le> m / 2 ^ 52 / 2"
    unfolding rd by (rule grid_round_error)
  also have "m / 2 ^ 52 / 2 = m / 2 ^ 53" by simp
  also have "m / 2 ^ 53 \<le> max x t / 2 ^ 53" using mx by (rule divide_right_mono) simp
  finally show ?thesis by (simp only: t_def)
qed

lemma round_double_error:
  assumes "1 / 2 ^ 1022 \<le> x"
  shows "\<bar>round_double x - x\<bar> \<le> x / 2 ^ 53"
proof -
  define t :: real where "t = 1 / 2 ^ 1022"
  have t: "0 < t" by (simp add: t_def)
  have tx: "t \<le> x" using assms by (simp only: t_def)
  then have "0 < x" using t by linarith
  then have "\<bar>round_double x - x\<bar> \<le> max x t / 2 ^ 53"
    using round_double_error_general [of x] by (simp only: t_def)
  moreover have "max x t = x" using tx by (simp add: max_def)
  ultimately show ?thesis by (simp only:)
qed

lemma relative_error_bounds:
  fixes r x c :: real
  assumes "\<bar>r - x\<bar> \<le> x / c" and "0 < c"
  shows "x * (1 - 1 / c) \<le> r \<and> r \<le> x * (1 + 1 / c)"
proof -
  have "x * (1 - 1 / c) = x - x / c" "x * (1 + 1 / c) = x + x / c"
    by (simp_all add: algebra_simps)
  then show ?thesis using assms(1) by (simp only:) linarith
qed

lemma round_double_bounds:
  assumes "1 / 2 ^ 1022 \<le> x"
  shows "x * (1 - 1 / 2 ^ 53) \<le> round_double x \<and> round_double x \<le> x * (1 + 1 / 2 ^ 53)"
proof -
  have "\<bar>round_double x - x\<bar> \<le> x / 2 ^ 53" using assms by (rule round_double_error)
  then show ?thesis by (rule relative_error_bounds) simp
qed

lemma round_double_lower: "1 / 2 ^ 1022 \<le> x \<Longrightarrow> x * (1 - 1 / 2 ^ 53) \<le> round_double x"
  by (rule conjunct1 [OF round_double_bounds])

lemma round_double_upper: "1 / 2 ^ 1022 \<le> x \<Longrightarrow> round_double x \<le> x * (1 + 1 / 2 ^ 53)"
  by (rule conjunct2 [OF round_double_bounds])

text \<open>
  Rounding keeps a number on its side of the two bounds of \<open>analyzeHierarchy\<close>: a number
  from 1.15 upwards is rounded to the double 1.15 or above, a number up to 3 to 3 or below.
\<close>

lemma round_double_1_2:
  assumes "1 \<le> x" and "x < 2"
  shows "round_double x = of_int (round_half_even (x * 2 ^ 52)) / 2 ^ 52"
proof -
  have b: "binade x = 1" using assms by (simp add: binade_def scale_up_stop)
  have "0 < x" using assms by simp
  then have "round_double x = of_int (round_half_even (x / (1 / 2 ^ 52))) * (1 / 2 ^ 52)"
    by (rule round_double_positive) (simp add: b max_def)
  then show ?thesis by simp
qed

lemma round_double_2_4:
  assumes "2 \<le> x" and "x < 4"
  shows "round_double x = of_int (round_half_even (x * 2 ^ 51)) / 2 ^ 51"
proof -
  have b: "binade x = 2" using assms by (simp add: binade_def scale_up_stop scale_up_step)
  have "0 < x" using assms by simp
  then have "round_double x = of_int (round_half_even (x / (2 / 2 ^ 52))) * (2 / 2 ^ 52)"
    by (rule round_double_positive) (simp add: b max_def)
  then show ?thesis by simp
qed

lemma round_double_from_1_15:
  assumes "1.15 \<le> x"
  shows "round_double 1.15 \<le> round_double x"
proof (cases "x < 2")
  case True
  have "of_int 5179139571476070 \<le> x * 2 ^ 52" using assms by simp
  then have "5179139571476070 \<le> round_half_even (x * 2 ^ 52)" by (rule round_half_even_ge)
  then have "(5179139571476070 :: real) \<le> of_int (round_half_even (x * 2 ^ 52))" by linarith
  then have "5179139571476070 / 2 ^ 52 \<le> round_double x"
    using assms True by (simp add: round_double_1_2 divide_right_mono)
  then show ?thesis unfolding double_1_15 by simp
next
  case False
  then have x: "2 \<le> x" by simp
  have "(1 / 2 ^ 1022 :: real) \<le> 2" by simp
  then have "1 / 2 ^ 1022 \<le> x" using x by linarith
  then have "x * (1 - 1 / 2 ^ 53) \<le> round_double x" by (rule round_double_lower)
  moreover have "2 * (1 - 1 / 2 ^ 53) \<le> x * (1 - 1 / 2 ^ 53)"
    using x by (intro mult_right_mono) simp_all
  ultimately have "2 * (1 - 1 / 2 ^ 53) \<le> round_double x" by linarith
  then show ?thesis unfolding double_1_15 by simp
qed

lemma round_double_up_to_3:
  assumes "1 \<le> x" and "x \<le> 3"
  shows "round_double x \<le> 3"
proof (cases "x < 2")
  case True
  have "(1 / 2 ^ 1022 :: real) \<le> 1" by simp
  then have "1 / 2 ^ 1022 \<le> x" using assms(1) by linarith
  then have "round_double x \<le> x * (1 + 1 / 2 ^ 53)" by (rule round_double_upper)
  moreover have "x * (1 + 1 / 2 ^ 53) \<le> 2 * (1 + 1 / 2 ^ 53)"
    using True by (intro mult_right_mono) simp_all
  ultimately have "round_double x \<le> 2 * (1 + 1 / 2 ^ 53)" by linarith
  then show ?thesis by simp
next
  case False
  then have x: "2 \<le> x" "x < 4" using assms(2) by simp_all
  have "x * 2 ^ 51 \<le> of_int 6755399441055744" using assms(2) by simp
  then have "round_half_even (x * 2 ^ 51) \<le> 6755399441055744" by (rule round_half_even_le)
  then have "of_int (round_half_even (x * 2 ^ 51)) \<le> (6755399441055744 :: real)" by linarith
  then have "round_double x \<le> 6755399441055744 / 2 ^ 51"
    using x by (simp add: round_double_2_4 divide_right_mono)
  then show ?thesis by simp
qed

lemma js_round_finite:
  assumes "0 \<le> round_double x" and "round_double x \<le> 3"
  shows "js_round x = Finite (round_double x)"
proof -
  define big :: real where "big = 2 ^ 1024"
  have "3 < big" by (simp add: big_def)
  then have "\<not> big \<le> round_double x" "\<not> round_double x \<le> - big" using assms by linarith+
  then show ?thesis by (simp add: js_round_def Let_def big_def)
qed

section \<open>Properties of autoFitText\<close>

lemma shrink_loop_step:
  "probe k \<Longrightarrow> i < m \<Longrightarrow>
   shrink_loop probe m i tf k
     = shrink_loop probe m (Suc i)
         (tf\<lparr>font_size := round_double (font_size tf * round_double 0.95)\<rparr>) (Suc k)"
  by (subst shrink_loop.simps) simp

lemma shrink_loop_exit:
  "\<not> (probe k \<and> i < m) \<Longrightarrow> shrink_loop probe m i tf k = (tf, Suc k)"
  by (subst shrink_loop.simps) (simp only: if_False)

lemma grow_loop_exit:
  "\<not> (\<not> probe k \<and> font_size tf < M \<and> i < m) \<Longrightarrow> grow_loop probe M m i tf k = (tf, Suc k)"
  by (subst grow_loop.simps) (simp only: if_False)

lemma grow_loop_revert:
  "\<not> probe k \<and> font_size tf < M \<and> i < m \<Longrightarrow> probe (Suc k) \<Longrightarrow>
   grow_loop probe M m i tf k
     = (tf\<lparr>font_size := round_double (round_double (font_size tf * round_double 1.05)
                                        * round_double 0.95)\<rparr>, Suc (Suc k))"
  by (subst grow_loop.simps) (simp add: Let_def)

lemma grow_loop_step:
  "\<not> probe k \<and> font_size tf < M \<and> i < m \<Longrightarrow> \<not> probe (Suc k) \<Longrightarrow>
   grow_loop probe M m i tf k =
     grow_loop probe M m (Suc i)
       (tf\<lparr>font_size := round_double (font_size tf * round_double 1.05)\<rparr>) (Suc (Suc k))"
  by (subst grow_loop.simps) (simp add: Let_def)

text \<open>
  One rounded multiplication by the double 0.95 keeps at least the factor
  \<open>0.95' * (1 - 2^-53)\<close> of a size, and one by the double 1.05 does not lower a size; here
  \<open>0.95'\<close> is the double, and the size is at least \<open>2^-1021\<close>.
\<close>

lemma times_0_95_lower:
  assumes "2 / 2 ^ 1022 \<le> s"
  shows "s * (round_double 0.95 * (1 - 1 / 2 ^ 53)) \<le> round_double (s * round_double 0.95)"
proof -
  define t :: real where "t = 1 / 2 ^ 1022"
  have t: "0 < t" by (simp add: t_def)
  have s: "2 * t \<le> s" using assms by (simp add: t_def)
  have "1 / 2 \<le> round_double 0.95" unfolding double_0_95 by simp
  then have "s * (1 / 2) \<le> s * round_double 0.95"
    using s t by (intro mult_left_mono) linarith+
  then have "t \<le> s * round_double 0.95" using s by linarith
  then have "s * round_double 0.95 * (1 - 1 / 2 ^ 53) \<le> round_double (s * round_double 0.95)"
    unfolding t_def by (rule round_double_lower)
  then show ?thesis by (simp only: mult.assoc)
qed

lemma times_1_05_lower:
  assumes "2 / 2 ^ 1022 \<le> s"
  shows "s * (round_double 1.05 * (1 - 1 / 2 ^ 53)) \<le> round_double (s * round_double 1.05)"
proof -
  define t :: real where "t = 1 / 2 ^ 1022"
  have t: "0 < t" by (simp add: t_def)
  have s: "2 * t \<le> s" using assms by (simp add: t_def)
  have "1 \<le> round_double 1.05" unfolding double_1_05 by simp
  then have "s * 1 \<le> s * round_double 1.05"
    using s t by (intro mult_left_mono) linarith+
  then have "t \<le> s * round_double 1.05" using s t by linarith
  then have "s * round_double 1.05 * (1 - 1 / 2 ^ 53) \<le> round_double (s * round_double 1.05)"
    unfolding t_def by (rule round_double_lower)
  then show ?thesis by (simp only: mult.assoc)
qed

lemma factor_bounds:
  "1 / 2 \<le> round_double 0.95 * (1 - 1 / 2 ^ 53)"
  "round_double 0.95 * (1 - 1 / 2 ^ 53) \<le> 1"
  "1 \<le> round_double 1.05 * (1 - 1 / 2 ^ 53)"
  "round_double 1.05 * (1 - 1 / 2 ^ 53) * (round_double 0.95 * (1 - 1 / 2 ^ 53)) \<le> 1"
  unfolding double_0_95 double_1_05 by simp_all

lemma factor_product:
  "0.95 ^ 20 * 0.9975 * (1 - 1 / 10 ^ 14)
     \<le> (round_double 0.95 * (1 - 1 / 2 ^ 53)) ^ 20
         * (round_double 1.05 * (1 - 1 / 2 ^ 53) * (round_double 0.95 * (1 - 1 / 2 ^ 53)))"
proof -
  define q :: real where "q = round_double 0.95 * (1 - 1 / 2 ^ 53)"
  define g :: real where "g = round_double 1.05 * (1 - 1 / 2 ^ 53)"
  define e :: real where "e = 4 / 10 ^ 16"
  define p :: real where "p = 0.95 ^ 20"
  have p: "0 < p" by (simp add: p_def)
  have q: "0.95 * (1 - e) \<le> q" unfolding q_def e_def double_0_95 by simp
  have gq: "0.9975 * (1 - 1 / 10 ^ 15) \<le> g * q"
    unfolding q_def g_def double_0_95 double_1_05 by simp
  have "1 + real 20 * (- e) \<le> (1 + (- e)) ^ 20"
    by (rule Bernoulli_inequality) (simp add: e_def)
  then have bern: "1 - 20 * e \<le> (1 - e) ^ 20" by simp
  have e20: "0 \<le> 1 - 20 * e" by (simp add: e_def)
  have "p * (1 - 20 * e) \<le> p * (1 - e) ^ 20"
    using bern p by (intro mult_left_mono) simp_all
  also have "\<dots> = (0.95 * (1 - e)) ^ 20"
    unfolding p_def by (rule power_mult_distrib [symmetric])
  also have "\<dots> \<le> q ^ 20" using q by (intro power_mono) (simp_all add: e_def)
  finally have q20: "p * (1 - 20 * e) \<le> q ^ 20" .
  have "p * 0.9975 * (1 - 1 / 10 ^ 14) \<le> p * (1 - 20 * e) * (0.9975 * (1 - 1 / 10 ^ 15))"
  proof -
    have "0.9975 * (1 - 1 / 10 ^ 14) \<le> (1 - 20 * e) * (0.9975 * (1 - 1 / 10 ^ 15 :: real))"
      by (simp add: e_def)
    then have "p * (0.9975 * (1 - 1 / 10 ^ 14)) \<le> p * ((1 - 20 * e) * (0.9975 * (1 - 1 / 10 ^ 15)))"
      using p by (intro mult_left_mono) simp_all
    then show ?thesis by (simp only: mult.assoc)
  qed
  also have "\<dots> \<le> q ^ 20 * (0.9975 * (1 - 1 / 10 ^ 15))"
    using q20 by (intro mult_right_mono) simp_all
  also have "\<dots> \<le> q ^ 20 * (g * q)"
  proof (intro mult_left_mono)
    show "0.9975 * (1 - 1 / 10 ^ 15) \<le> g * q" by (rule gq)
    have "0 \<le> q" unfolding q_def double_0_95 by simp
    then show "0 \<le> q ^ 20" by simp
  qed
  finally show ?thesis by (simp only: p_def q_def g_def)
qed

text \<open>
  The shrink loop, from a size that stays above \<open>2^-1021\<close> through the passes that remain:
  each pass keeps at least the factor \<open>0.95' * (1 - 2^-53)\<close>.
\<close>

lemma shrink_loop_lower:
  assumes "2 / 2 ^ 1022 \<le> font_size tf * (1 / 2) ^ (m - i)"
  shows "font_size tf * (round_double 0.95 * (1 - 1 / 2 ^ 53)) ^ (m - i)
           \<le> font_size (fst (shrink_loop probe m i tf k))
         \<and> 2 / 2 ^ 1022 \<le> font_size (fst (shrink_loop probe m i tf k))"
  using assms
proof (induction probe m i tf k rule: shrink_loop.induct)
  case (1 probe m i tf k)
  define t :: real where "t = 2 / 2 ^ 1022"
  define q :: real where "q = round_double 0.95 * (1 - 1 / 2 ^ 53)"
  define s where "s = font_size tf"
  have t: "0 < t" by (simp add: t_def)
  have q: "1 / 2 \<le> q" "q \<le> 1" unfolding q_def by (rule factor_bounds)+
  have prem: "t \<le> s * (1 / 2) ^ (m - i)" using "1.prems" by (simp only: t_def s_def)
  have half: "(0::real) < (1 / 2) ^ (m - i)" "((1 / 2)::real) ^ (m - i) \<le> 1"
    by (simp_all add: power_le_one)
  have s: "t \<le> s"
  proof -
    have "0 < s" using prem t half(1) by (metis less_le_trans zero_less_mult_pos2)
    then have "s * (1 / 2) ^ (m - i) \<le> s * 1" using half(2) by (intro mult_left_mono) simp_all
    then show ?thesis using prem by simp
  qed
  show ?case
  proof (cases "probe k \<and> i < m")
    case False
    have "0 \<le> q" using q by simp
    then have "q ^ (m - i) \<le> 1" using q(2) by (rule power_le_one)
    then have "s * q ^ (m - i) \<le> s * 1" using s t by (intro mult_left_mono) linarith+
    then show ?thesis using False s by (simp add: shrink_loop_exit t_def q_def s_def)
  next
    case True
    define s' where "s' = round_double (s * round_double 0.95)"
    let ?tf = "tf\<lparr>font_size := round_double (font_size tf * round_double 0.95)\<rparr>"
    have eq: "shrink_loop probe m i tf k = shrink_loop probe m (Suc i) ?tf (Suc k)"
      using True by (simp add: shrink_loop_step)
    have fs: "font_size ?tf = s'" by (simp add: s'_def s_def)
    have n: "m - i = Suc (m - Suc i)" using True by arith
    have s2: "t \<le> s * (1 / 2)"
    proof -
      have "((1 / 2)::real) ^ (m - Suc i) \<le> 1" by (simp add: power_le_one)
      then have "s * (1 / 2) * (1 / 2) ^ (m - Suc i) \<le> s * (1 / 2) * 1"
        using s t by (intro mult_left_mono) linarith+
      then show ?thesis using prem n by simp
    qed
    have "t \<le> s" using s .
    then have "s * q \<le> s'" unfolding s'_def q_def t_def by (rule times_0_95_lower)
    moreover have "s * (1 / 2) \<le> s * q" using q(1) s t by (intro mult_left_mono) linarith+
    ultimately have step: "s * q \<le> s'" "s * (1 / 2) \<le> s'" by linarith+
    have "s * (1 / 2) ^ (m - i) = s * (1 / 2) * (1 / 2) ^ (m - Suc i)"
      by (simp only: n power_Suc mult.assoc)
    also have "\<dots> \<le> s' * (1 / 2) ^ (m - Suc i)"
      using step(2) by (intro mult_right_mono) simp_all
    finally have "t \<le> s' * (1 / 2) ^ (m - Suc i)" using prem by linarith
    then have "2 / 2 ^ 1022 \<le> font_size ?tf * (1 / 2) ^ (m - Suc i)"
      by (simp only: fs t_def)
    from "1.IH" [OF True this]
    have ih: "s' * q ^ (m - Suc i) \<le> font_size (fst (shrink_loop probe m (Suc i) ?tf (Suc k)))"
      and ih2: "t \<le> font_size (fst (shrink_loop probe m (Suc i) ?tf (Suc k)))"
      by (simp_all only: fs q_def t_def)
    have "0 \<le> q" using q by simp
    then have "s * q * q ^ (m - Suc i) \<le> s' * q ^ (m - Suc i)"
      using step(1) by (intro mult_right_mono) simp_all
    then have "s * q ^ (m - i) \<le> s' * q ^ (m - Suc i)" using n by (simp add: mult.assoc)
    then have "s * q ^ (m - i) \<le> font_size (fst (shrink_loop probe m i tf k))"
      using ih by (simp only: eq)
    moreover have "t \<le> font_size (fst (shrink_loop probe m i tf k))" using ih2 by (simp only: eq)
    ultimately show ?thesis by (simp only: s_def q_def t_def)
  qed
qed

text \<open>Every test of the shrink condition reads the probe once: at most \<open>m - i + 1\<close> reads.\<close>

lemma shrink_loop_reads:
  "snd (shrink_loop probe m i tf k) \<le> k + (m - i) + 1"
proof (induction probe m i tf k rule: shrink_loop.induct)
  case (1 probe m i tf k)
  show ?case
  proof (cases "probe k \<and> i < m")
    case True
    let ?tf = "tf\<lparr>font_size := round_double (font_size tf * round_double 0.95)\<rparr>"
    have eq: "shrink_loop probe m i tf k = shrink_loop probe m (Suc i) ?tf (Suc k)"
      using True by (simp add: shrink_loop_step)
    have "snd (shrink_loop probe m (Suc i) ?tf (Suc k)) \<le> Suc k + (m - Suc i) + 1"
      using "1.IH" [OF True] .
    also have "Suc k + (m - Suc i) + 1 = k + (m - i) + 1" using True by arith
    finally show ?thesis by (simp only: eq)
  next
    case False
    then show ?thesis by (simp add: shrink_loop_exit)
  qed
qed

text \<open>
  The grow loop ends on the starting size grown by some passes, or on that multiplied once
  more by the double 0.95 after at least one pass: at least the factor
  \<open>1.05' * (1 - 2^-53) * 0.95' * (1 - 2^-53)\<close> of the starting size.
\<close>

lemma grow_loop_lower:
  assumes "2 / 2 ^ 1022 \<le> font_size tf"
  shows "font_size tf * (round_double 1.05 * (1 - 1 / 2 ^ 53)
                           * (round_double 0.95 * (1 - 1 / 2 ^ 53)))
           \<le> font_size (fst (grow_loop probe M m i tf k))"
  using assms
proof (induction probe M m i tf k rule: grow_loop.induct)
  case (1 probe M m i tf k)
  define t :: real where "t = 2 / 2 ^ 1022"
  define q :: real where "q = round_double 0.95 * (1 - 1 / 2 ^ 53)"
  define g :: real where "g = round_double 1.05 * (1 - 1 / 2 ^ 53)"
  define s where "s = font_size tf"
  define s' where "s' = round_double (s * round_double 1.05)"
  let ?tf1 = "tf\<lparr>font_size := round_double (font_size tf * round_double 1.05)\<rparr>"
  have t: "0 < t" by (simp add: t_def)
  have q: "1 / 2 \<le> q" "q \<le> 1" unfolding q_def by (rule factor_bounds)+
  have g: "1 \<le> g" unfolding g_def by (rule factor_bounds)
  have gq: "g * q \<le> 1" unfolding g_def q_def by (rule factor_bounds)
  have s: "t \<le> s" using "1.prems" by (simp only: t_def s_def)
  have fs: "font_size ?tf1 = s'" by (simp add: s'_def s_def)
  have "s * g \<le> s'" using s unfolding s'_def g_def t_def by (rule times_1_05_lower)
  moreover have "s * 1 \<le> s * g" using g s t by (intro mult_left_mono) linarith+
  ultimately have grow: "s * g \<le> s'" "s \<le> s'" by linarith+
  have s't: "t \<le> s'" using grow(2) s by linarith
  show ?case
  proof (cases "\<not> probe k \<and> font_size tf < M \<and> i < m")
    case False
    have "s * (g * q) \<le> s * 1" using gq s t by (intro mult_left_mono) linarith+
    then show ?thesis using False by (simp add: grow_loop_exit s_def g_def q_def)
  next
    case enter: True
    show ?thesis
    proof (cases "probe (Suc k)")
      case True
      have eq: "grow_loop probe M m i tf k
                  = (tf\<lparr>font_size := round_double (s' * round_double 0.95)\<rparr>, Suc (Suc k))"
        using enter True by (simp add: grow_loop_revert s'_def s_def)
      have "s' * q \<le> round_double (s' * round_double 0.95)"
        using s't unfolding q_def t_def by (rule times_0_95_lower)
      moreover have "s * g * q \<le> s' * q" using grow(1) q by (intro mult_right_mono) linarith+
      ultimately have "s * (g * q) \<le> round_double (s' * round_double 0.95)"
        by (simp add: mult.assoc)
      then show ?thesis by (simp add: eq s_def g_def q_def)
    next
      case False
      have eq: "grow_loop probe M m i tf k = grow_loop probe M m (Suc i) ?tf1 (Suc (Suc k))"
        using enter False by (simp add: grow_loop_step)
      have "2 / 2 ^ 1022 \<le> font_size ?tf1" using s't by (simp only: fs t_def)
      from "1.IH" [OF enter refl False this]
      have ih: "s' * (g * q) \<le> font_size (fst (grow_loop probe M m (Suc i) ?tf1 (Suc (Suc k))))"
        by (simp only: fs g_def q_def)
      have "0 \<le> g * q" using g q by simp
      then have "s * (g * q) \<le> s' * (g * q)" using grow(2) by (intro mult_right_mono) simp_all
      then have "s * (g * q) \<le> font_size (fst (grow_loop probe M m i tf k))"
        using ih by (simp only: eq)
      then show ?thesis by (simp only: s_def g_def q_def)
    qed
  qed
qed

text \<open>Every pass of the grow loop reads the probe twice, and the last test once more.\<close>

lemma grow_loop_reads:
  "snd (grow_loop probe M m i tf k) \<le> k + 2 * (m - i) + 1"
proof (induction probe M m i tf k rule: grow_loop.induct)
  case (1 probe M m i tf k)
  let ?tf1 = "tf\<lparr>font_size := round_double (font_size tf * round_double 1.05)\<rparr>"
  show ?case
  proof (cases "\<not> probe k \<and> font_size tf < M \<and> i < m")
    case enter: True
    show ?thesis
    proof (cases "probe (Suc k)")
      case True
      have "snd (grow_loop probe M m i tf k) = Suc (Suc k)"
        using enter True by (simp add: grow_loop_revert)
      moreover have "Suc (Suc k) \<le> k + 2 * (m - i) + 1" using enter by arith
      ultimately show ?thesis by (simp only:)
    next
      case False
      have eq: "grow_loop probe M m i tf k = grow_loop probe M m (Suc i) ?tf1 (Suc (Suc k))"
        using enter False by (simp add: grow_loop_step)
      have "snd (grow_loop probe M m (Suc i) ?tf1 (Suc (Suc k))) \<le> Suc (Suc k) + 2 * (m - Suc i) + 1"
        using "1.IH" [OF enter refl False] .
      also have "Suc (Suc k) + 2 * (m - Suc i) + 1 = k + 2 * (m - i) + 1" using enter by arith
      finally show ?thesis by (simp only: eq)
    qed
  next
    case False
    then show ?thesis by (simp add: grow_loop_exit)
  qed
qed

text \<open>
  The sizes that the loops go through from the base size 12. Each line is one rounded
  product: the argument is the exact product of a size and the double 0.95 or 1.05,
  written as a reduced fraction, and the value is the next size. The first twenty are the
  shrink steps from 12, the next two a growth step and the corrective \<open>* 0.95\<close> after them,
  then the twenty growth steps from 12 and the growth steps that follow the twenty shrink
  steps.
\<close>

lemma literal_values:
  "round_double (19 / 20) = 4278419646001971 / 4503599627370496"
  "round_double (21 / 20) = 4728779608739021 / 4503599627370496"
  using double_0_95 double_1_05 by simp_all

lemma shrink_values:
  "round_double (12835258938005913 / 1125899906842624) = 1604407367250739 / 140737488355328"
  "round_double (6864328000235861032539245206569 / 633825300114114700748351602688) = 762093499444101 / 70368744177664"
  "round_double (3260555800112033883495650323071 / 316912650057057350374175801344) = 5791910595775167 / 562949953421312"
  "round_double (24780224080851454947515154854157 / 2535301200456458802993406410752) = 687789383248301 / 70368744177664"
  "round_double (2942651609601109927395828401271 / 316912650057057350374175801344) = 5227199312687087 / 562949953421312"
  "round_double (22364152232968432881156508248477 / 2535301200456458802993406410752) = 1241459836763183 / 140737488355328"
  "round_double (5311486155330002114031478233693 / 633825300114114700748351602688) = 4717547379700095 / 562949953421312"
  "round_double (20183647390254006321951758887245 / 2535301200456458802993406410752) = 2240835005357545 / 281474976710656"
  "round_double (9587232510370652468124629721195 / 1267650600228229401496703205376) = 8515173020358671 / 1125899906842624"
  "round_double (36431483539408479378873592940541 / 5070602400912917605986812821504) = 8089414369340737 / 1125899906842624"
  "round_double (34609909362438053484641072592627 / 5070602400912917605986812821504) = 1921235912718425 / 281474976710656"
  "round_double (8219853473579037542161518015675 / 1267650600228229401496703205376) = 7300696468330015 / 1125899906842624"
  "round_double (31235443199600342660213768459565 / 5070602400912917605986812821504) = 3467830822456757 / 562949953421312"
  "round_double (14836835519810162228799084268047 / 2535301200456458802993406410752) = 3294439281333919 / 562949953421312"
  "round_double (14094993743819653475596183154349 / 2535301200456458802993406410752) = 3129717317267223 / 562949953421312"
  "round_double (13390244056628670587895391696533 / 2535301200456458802993406410752) = 5946462902807723 / 1125899906842624"
  "round_double (25441463707594471122107492022033 / 5070602400912917605986812821504) = 5649139757667337 / 1125899906842624"
  "round_double (24169390522214748207765064321227 / 5070602400912917605986812821504) = 2683341384891985 / 562949953421312"
  "round_double (11480460498052005077806932102435 / 2535301200456458802993406410752) = 5098348631294771 / 1125899906842624"
  "round_double (21812874946298807508623347993641 / 5070602400912917605986812821504) = 302714449983127 / 70368744177664"
  by (simp_all add: double_eval)

lemma revert_values:
  "round_double (1431469918350859237215196498667 / 316912650057057350374175801344) = 2542801379858267 / 562949953421312"
  "round_double (10879171379466530089833182644257 / 2535301200456458802993406410752) = 4831322621730707 / 1125899906842624"
  by (simp_all add: double_eval)

lemma grow_values:
  "round_double (14186338826217063 / 1125899906842624) = 1773292353277133 / 140737488355328"
  "round_double (8385508720509738791315084106793 / 633825300114114700748351602688) = 7447827883763959 / 562949953421312"
  "round_double (35219136626140904815035196744139 / 2535301200456458802993406410752) = 7820219277952157 / 562949953421312"
  "round_double (36980093457447950292225937018297 / 2535301200456458802993406410752) = 8211230241849765 / 562949953421312"
  "round_double (38829098130320348516154175180065 / 2535301200456458802993406410752) = 4310895876971127 / 281474976710656"
  "round_double (20385276518418184744273295246667 / 1267650600228229401496703205376) = 1131610167704921 / 70368744177664"
  "round_double (5351135086084774263798426422341 / 316912650057057350374175801344) = 1188190676090167 / 70368744177664"
  "round_double (5618691840389012740549367306507 / 316912650057057350374175801344) = 2495200419789351 / 140737488355328"
  "round_double (11799252864816928173787553965371 / 633825300114114700748351602688) = 5239920881557637 / 281474976710656"
  "round_double (24778431016115548692075902453377 / 1267650600228229401496703205376) = 5501916925635519 / 281474976710656"
  "round_double (26017352566921326835996638886899 / 1267650600228229401496703205376) = 5777012771917295 / 281474976710656"
  "round_double (27318220195267393414235451268195 / 1267650600228229401496703205376) = 758232926314145 / 35184372088832"
  "round_double (3585516400628845533392765752045 / 158456325028528675187087900672) = 3184578290519409 / 140737488355328"
  "round_double (15059168882641151240249616158589 / 633825300114114700748351602688) = 6687614410090759 / 281474976710656"
  "round_double (31624254653546418077402154806939 / 1267650600228229401496703205376) = 7021995130595297 / 281474976710656"
  "round_double (33205467386223739217711242984237 / 1267650600228229401496703205376) = 3686547443562531 / 140737488355328"
  "round_double (17432870377767463443956873222151 / 633825300114114700748351602688) = 7741749631481315 / 281474976710656"
  "round_double (36609027793311672759431472892615 / 1267650600228229401496703205376) = 8128837113055381 / 281474976710656"
  "round_double (38439479182977257579597948722001 / 1267650600228229401496703205376) = 4267639484354075 / 140737488355328"
  "round_double (20180726571063060111069432860575 / 633825300114114700748351602688) = 4481021458571779 / 140737488355328"
  by (simp_all add: double_eval)

lemma regrow_values:
  "round_double (12024347314147218538363572336607 / 2535301200456458802993406410752) = 5339882897702361 / 1125899906842624"
  "round_double (25251129359709160349197384528581 / 5070602400912917605986812821504) = 5606877042587479 / 1125899906842624"
  "round_double (26513685827694618130218273318059 / 5070602400912917605986812821504) = 5887220894716853 / 1125899906842624"
  "round_double (27839370119079349273168167420913 / 5070602400912917605986812821504) = 772697742431587 / 140737488355328"
  "round_double (3653917328129164798987429856327 / 633825300114114700748351602688) = 6490661036425331 / 1125899906842624"
  "round_double (30692905556284985257250332540951 / 5070602400912917605986812821504) = 3407597044123299 / 562949953421312"
  "round_double (16113775417049618324031836550279 / 2535301200456458802993406410752) = 447247112041183 / 70368744177664"
  "round_double (2114933023487762434584051101843 / 316912650057057350374175801344) = 7513751482291875 / 1125899906842624"
  "round_double (35530874794594411738279823754375 / 5070602400912917605986812821504) = 7889439056406469 / 1125899906842624"
  "round_double (37307418534324133507388717126849 / 5070602400912917605986812821504) = 8283911009226793 / 1125899906842624"
  "round_double (39172789461040342783586937789653 / 5070602400912917605986812821504) = 8698106559688133 / 1125899906842624"
  "round_double (41131428934092361577839147737793 / 5070602400912917605986812821504) = 2283252971918135 / 281474976710656"
  "round_double (10797000095199245327950992045835 / 1267650600228229401496703205376) = 1198707810257021 / 140737488355328"
  "round_double (5668425049979604388271721916441 / 633825300114114700748351602688) = 78665200048117 / 8796093022208"
  "round_double (371990393904911523202895473457 / 39614081257132168796771975168) = 5286301443233463 / 562949953421312"
  "round_double (24997754470410057196502341059723 / 2535301200456458802993406410752) = 86728383053049 / 8796093022208"
  "round_double (410119409280164989797039325029 / 39614081257132168796771975168) = 5828147341164893 / 562949953421312"
  "round_double (27560024303627088260116964389753 / 2535301200456458802993406410752) = 3059777354111569 / 281474976710656"
  "round_double (14469012759404222164097837833949 / 1267650600228229401496703205376) = 6425532443634295 / 562949953421312"
  by (simp_all add: double_eval)

lemmas autoFit_eval =
  autoFitText_def or_default_def sample_frame_def shrink_loop.simps grow_loop.simps
  literal_values shrink_values revert_values grow_values regrow_values

text \<open>
  The test \<open>size < maxFontSize\<close> is made on the rounded size: from the double 3.8 one growth
  step gives 3.9899999999999998, still below the double 3.99, so a frame that never
  overflows is grown a second time, to 4.1895, and the probe is read six times.
\<close>

lemma autoFitText_rounded_guard:
  "autoFitText (\<lambda>k. False) sample_frame
     \<lparr>baseFontSize = Some (round_double 3.8), maxFontSize = Some (round_double 3.99)\<rparr>
   = (sample_frame\<lparr>font_size := 4716957659717173 / 1125899906842624\<rparr>, 6)"
proof -
  have v: "round_double 3.8 = 4278419646001971 / 1125899906842624"
    "round_double 3.99 = 2246170314151035 / 562949953421312"
    by (simp_all add: double_eval)
  have s: "round_double (20231703579642541157815390610391 / 5070602400912917605986812821504)
             = 8984681256604139 / 2251799813685248"
    "round_double (42486577517249335958534359407919 / 10141204801825835211973625643008)
             = 4716957659717173 / 1125899906842624"
    by (simp_all add: double_eval)
  show ?thesis unfolding v
    by (simp add: autoFitText_def or_default_def sample_frame_def shrink_loop.simps
          grow_loop.simps literal_values s)
qed

text \<open>
  C1. The claim puts the final size in \<open>[baseFontSize * 0.95^20, maxFontSize]\<close>. Both ends
  fail. With a probe that answers "overflowing" twenty-one times, then "fits", then
  "overflowing", the size is shrunk twenty times, grown once and multiplied by 0.95 once
  more: from base 12 it ends at 4.291076491230245, below \<open>12 * 0.95^20\<close>, and, every
  product being rounded and the double 0.95 being below 0.95, even below
  \<open>12 * 0.95^20 * 0.9975\<close>. With base 12, maximum 12.5 and a frame that never overflows,
  one growth step is taken from 12 (which is below the maximum) and leaves
  12.600000000000001.
\<close>

theorem autoFitText_interval_counterexample:
  "\<not> (font_size (fst (autoFitText (\<lambda>k. k \<noteq> 21) sample_frame
                        \<lparr>baseFontSize = Some 12, maxFontSize = Some 72\<rparr>))
        \<in> {12 * 0.95 ^ 20 .. 72})
   \<and> font_size (fst (autoFitText (\<lambda>k. k \<noteq> 21) sample_frame
                        \<lparr>baseFontSize = Some 12, maxFontSize = Some 72\<rparr>))
        < 12 * 0.95 ^ 20 * 0.9975
   \<and> \<not> (font_size (fst (autoFitText (\<lambda>k. False) sample_frame
                        \<lparr>baseFontSize = Some 12, maxFontSize = Some 12.5\<rparr>))
        \<in> {12 * 0.95 ^ 20 .. 12.5})"
proof -
  have a: "font_size (fst (autoFitText (\<lambda>k. k \<noteq> 21) sample_frame
                        \<lparr>baseFontSize = Some 12, maxFontSize = Some 72\<rparr>))
             = 4831322621730707 / 1125899906842624"
    by (simp add: autoFit_eval)
  have b: "font_size (fst (autoFitText (\<lambda>k. False) sample_frame
                        \<lparr>baseFontSize = Some 12, maxFontSize = Some 12.5\<rparr>))
             = 1773292353277133 / 140737488355328"
    by (simp add: autoFit_eval)
  show ?thesis unfolding a b by (simp add: power_divide)
qed

text \<open>
  C1, as amended. For an effective base size (12 when the parameter is absent or 0) from
  \<open>2^-1000\<close> to \<open>2^1000\<close>, where no product leaves the range of the normal doubles,
  whatever the probe answers, the size that \<open>autoFitText\<close> leaves on the frame is at least
  \<open>baseFontSize * 0.95^20 * 0.9975 * (1 - 10^-14)\<close>: twenty shrink steps, one growth step
  with its corrective \<open>* 0.95\<close> (\<open>1.05 * 0.95 = 0.9975\<close>), and the rounding of the products
  and of the two factors. Nothing is said of the upper end.
\<close>

theorem autoFitText_lower_bound:
  assumes "1 / 2 ^ 1000 \<le> or_default (baseFontSize params) 12"
    and "or_default (baseFontSize params) 12 \<le> 2 ^ 1000"
  shows "or_default (baseFontSize params) 12 * 0.95 ^ 20 * 0.9975 * (1 - 1 / 10 ^ 14)
           \<le> font_size (fst (autoFitText probe textFrame params))"
proof -
  define b where "b = or_default (baseFontSize params) 12"
  define q :: real where "q = round_double 0.95 * (1 - 1 / 2 ^ 53)"
  define g :: real where "g = round_double 1.05 * (1 - 1 / 2 ^ 53)"
  let ?M = "or_default (maxFontSize params) 72"
  let ?tf0 = "textFrame\<lparr>font_size := b\<rparr>"
  obtain tf1 k1 where sh: "shrink_loop probe 20 0 ?tf0 0 = (tf1, k1)"
    by (cases "shrink_loop probe 20 0 ?tf0 0")
  have res: "autoFitText probe textFrame params = grow_loop probe ?M 20 0 tf1 k1"
    by (simp add: autoFitText_def Let_def sh [unfolded b_def])
  have b: "1 / 2 ^ 1000 \<le> b" using assms(1) by (simp only: b_def)
  have b0: "0 \<le> b"
  proof -
    have "(0::real) \<le> 1 / 2 ^ 1000" by simp
    then show ?thesis using b by linarith
  qed
  have "(2 / 2 ^ 1022 :: real) = 1 / 2 ^ 1000 * (1 / 2) ^ (20 - 0) * (1 / 2)"
    by (simp add: power_divide)
  also have "\<dots> \<le> 1 / 2 ^ 1000 * (1 / 2) ^ (20 - 0) * 1"
    by (intro mult_left_mono) simp_all
  also have "\<dots> \<le> b * (1 / 2) ^ (20 - 0) * 1"
    using b by (intro mult_right_mono) simp_all
  finally have start: "2 / 2 ^ 1022 \<le> font_size ?tf0 * (1 / 2) ^ (20 - 0)" by simp
  from shrink_loop_lower [OF start, of probe 0]
  have lo1: "b * q ^ 20 \<le> font_size tf1" and range1: "2 / 2 ^ 1022 \<le> font_size tf1"
    by (simp_all add: sh q_def)
  have "b * (0.95 ^ 20 * 0.9975 * (1 - 1 / 10 ^ 14)) \<le> b * (q ^ 20 * (g * q))"
    using b0 unfolding q_def g_def by (intro mult_left_mono factor_product)
  also have "b * (q ^ 20 * (g * q)) = b * q ^ 20 * (g * q)" by (simp only: mult.assoc)
  also have "\<dots> \<le> font_size tf1 * (g * q)"
  proof (intro mult_right_mono lo1)
    have "1 / 2 \<le> q" "1 \<le> g" unfolding q_def g_def by (rule factor_bounds)+
    then show "0 \<le> g * q" by simp
  qed
  also have "\<dots> \<le> font_size (fst (grow_loop probe ?M 20 0 tf1 k1))"
    unfolding g_def q_def by (rule grow_loop_lower [OF range1])
  finally show ?thesis by (simp only: res b_def mult.assoc)
qed

theorem autoFitText_lower_bound_witness:
  "1 / 2 ^ 1000 \<le> or_default (baseFontSize \<lparr>baseFontSize = Some 12, maxFontSize = Some 72\<rparr>) 12
   \<and> or_default (baseFontSize \<lparr>baseFontSize = Some 12, maxFontSize = Some 72\<rparr>) 12 \<le> 2 ^ 1000
   \<and> 12 * 0.95 ^ 20 * 0.9975 * (1 - 1 / 10 ^ 14)
       \<le> font_size (fst (autoFitText (\<lambda>k. k \<noteq> 21) sample_frame
                           \<lparr>baseFontSize = Some 12, maxFontSize = Some 72\<rparr>))"
  using autoFitText_lower_bound
    [of "\<lparr>baseFontSize = Some 12, maxFontSize = Some 72\<rparr>" "\<lambda>k. k \<noteq> 21" sample_frame]
  by (simp add: or_default_def)

text \<open>
  C2. The claim bounds the reads of the probe by \<open>2 * maxIterations = 40\<close>. On a frame that
  never overflows, with base 12 and maximum 72, the solver reads the probe 42 times: once
  for the shrink condition, twice in each of the twenty growth passes, and once for the
  last test of the growth condition.
\<close>

theorem autoFitText_probe_reads_counterexample:
  "\<not> snd (autoFitText (\<lambda>k. False) sample_frame \<lparr>baseFontSize = Some 12, maxFontSize = Some 72\<rparr>)
       \<le> 2 * 20"
  by (simp add: autoFit_eval)

text \<open>
  C2, as amended. \<open>autoFitText\<close> is a total function of the probe (both loops are defined
  with a termination proof on \<open>maxIterations - iteration\<close>), so it terminates for every
  sequence of answers, and it reads the probe at most \<open>3 * maxIterations + 2 = 62\<close> times.
\<close>

theorem autoFitText_probe_reads:
  "snd (autoFitText probe textFrame params) \<le> 3 * 20 + 2"
proof -
  let ?b = "or_default (baseFontSize params) 12"
  let ?M = "or_default (maxFontSize params) 72"
  let ?tf0 = "textFrame\<lparr>font_size := ?b\<rparr>"
  obtain tf1 k1 where sh: "shrink_loop probe 20 0 ?tf0 0 = (tf1, k1)"
    by (cases "shrink_loop probe 20 0 ?tf0 0")
  have res: "autoFitText probe textFrame params = grow_loop probe ?M 20 0 tf1 k1"
    by (simp add: autoFitText_def Let_def sh)
  have "k1 \<le> 21" using shrink_loop_reads [of probe 20 0 ?tf0 0] by (simp add: sh)
  moreover have "snd (grow_loop probe ?M 20 0 tf1 k1) \<le> k1 + 2 * (20 - 0) + 1"
    by (rule grow_loop_reads)
  ultimately show ?thesis unfolding res by arith
qed

text \<open>The bound of 62 reads is reached.\<close>

lemma autoFitText_probe_reads_sharp:
  "snd (autoFitText (\<lambda>k. k < 21) sample_frame \<lparr>baseFontSize = Some 12, maxFontSize = Some 72\<rparr>) = 62"
  by (simp add: autoFit_eval)


section \<open>Properties of analyzeFontPairing\<close>

text \<open>\<open>unique\<close> lists every member once.\<close>

lemma unique_fold:
  "distinct acc \<Longrightarrow>
   distinct (fold (\<lambda>x seen. if x \<in> set seen then seen else seen @ [x]) xs acc)
   \<and> set (fold (\<lambda>x seen. if x \<in> set seen then seen else seen @ [x]) xs acc) = set acc \<union> set xs"
  by (induction xs arbitrary: acc) auto

lemma distinct_unique: "distinct (unique xs)"
  using unique_fold [of "[]" xs] by (simp add: unique_def)

lemma set_unique: "set (unique xs) = set xs"
  using unique_fold [of "[]" xs] by (simp add: unique_def)

lemma two_members_length:
  assumes "distinct xs" "a \<in> set xs" "b \<in> set xs" "a \<noteq> b"
  shows "2 \<le> length xs"
proof -
  have "card {a, b} \<le> card (set xs)"
    using assms by (intro card_mono) auto
  then show ?thesis using assms by (simp add: distinct_card)
qed

lemmas categorize_eval =
  categorizeFontFamily_def toLowerCase_def lower_char_def fontCategories_def
  str_includes_def indexOf_def Let_def

lemma categorize_samples:
  "categorizeFontFamily ''Brush Script'' = script"
  "categorizeFontFamily ''Lucida Handwriting'' = script"
  "categorizeFontFamily ''Arial'' = sansSerif"
  by (simp_all add: categorize_eval)

text \<open>
  C3. The claim gives the type \<open>error\<close> to every sequence with at least two elements whose
  family maps to \<open>script\<close>. The check for several script fonts comes third in
  \<open>analyzeFontPairing\<close>: two different script families and nothing else share one category
  and get a \<open>warning\<close>, and two elements of the same script family are one font and get no
  result.
\<close>

theorem analyzeFontPairing_script_counterexample:
  "categorizeFontFamily (family (sample_element ''Brush Script'' 24 1.4)) = script
   \<and> categorizeFontFamily (family (sample_element ''Lucida Handwriting'' 12 1.4)) = script
   \<and> map_option rtype (analyzeFontPairing
        [sample_element ''Brush Script'' 24 1.4, sample_element ''Lucida Handwriting'' 12 1.4])
       = Some Warning
   \<and> analyzeFontPairing
        [sample_element ''Brush Script'' 24 1.4, sample_element ''Brush Script'' 12 1.4] = None"
  by (simp add: analyzeFontPairing_def sample_element_def unique_def categorize_samples)

text \<open>
  C3, as amended. When the elements have two different families that map to \<open>script\<close> and
  a family that maps to another category, \<open>analyzeFontPairing\<close> returns a result of type
  \<open>error\<close>.
\<close>

theorem analyzeFontPairing_script_error:
  assumes "e1 \<in> set elements" "e2 \<in> set elements" "family e1 \<noteq> family e2"
    and "categorizeFontFamily (family e1) = script"
    and "categorizeFontFamily (family e2) = script"
    and "e3 \<in> set elements" "categorizeFontFamily (family e3) \<noteq> script"
  shows "map_option rtype (analyzeFontPairing elements) = Some Error"
proof -
  let ?fonts = "unique (map family elements)"
  let ?categories = "map categorizeFontFamily ?fonts"
  have d: "distinct ?fonts" by (rule distinct_unique)
  have m1: "family e1 \<in> set ?fonts" and m2: "family e2 \<in> set ?fonts"
    and m3: "family e3 \<in> set ?fonts"
    using assms by (simp_all add: set_unique)
  have len: "2 \<le> length ?fonts"
    using two_members_length [OF d m1 m2 assms(3)] .
  have c1: "script \<in> set ?categories"
    using m1 assms(4) by (metis image_eqI set_map)
  have c3: "categorizeFontFamily (family e3) \<in> set ?categories"
    using m3 by simp
  have "2 \<le> length (unique ?categories)"
    using two_members_length [of "unique ?categories" script "categorizeFontFamily (family e3)"]
      c1 c3 assms(7) by (simp add: distinct_unique set_unique)
  then have ne1: "length (unique ?categories) \<noteq> 1" by simp
  have "distinct (filter (\<lambda>f. categorizeFontFamily f = script) ?fonts)"
    using d by simp
  moreover have "family e1 \<in> set (filter (\<lambda>f. categorizeFontFamily f = script) ?fonts)"
    using m1 assms(4) by simp
  moreover have "family e2 \<in> set (filter (\<lambda>f. categorizeFontFamily f = script) ?fonts)"
    using m2 assms(5) by simp
  ultimately have "2 \<le> length (filter (\<lambda>f. categorizeFontFamily f = script) ?fonts)"
    using assms(3) by (rule two_members_length)
  then have cnt: "1 < length (filter (\<lambda>c. c = script) ?categories)"
    by (simp add: filter_map comp_def)
  show ?thesis
    using len ne1 c1 cnt by (simp add: analyzeFontPairing_def Let_def)
qed

theorem analyzeFontPairing_script_error_witness:
  "sample_element ''Brush Script'' 24 1.4 \<noteq> sample_element ''Lucida Handwriting'' 12 1.4
   \<and> categorizeFontFamily ''Brush Script'' = script
   \<and> categorizeFontFamily ''Lucida Handwriting'' = script
   \<and> categorizeFontFamily ''Arial'' \<noteq> script
   \<and> map_option rtype (analyzeFontPairing
        [sample_element ''Brush Script'' 24 1.4, sample_element ''Lucida Handwriting'' 12 1.4,
         sample_element ''Arial'' 10 1.4]) = Some Error"
  using analyzeFontPairing_script_error
    [of "sample_element ''Brush Script'' 24 1.4"
        "[sample_element ''Brush Script'' 24 1.4, sample_element ''Lucida Handwriting'' 12 1.4,
          sample_element ''Arial'' 10 1.4]"
        "sample_element ''Lucida Handwriting'' 12 1.4"
        "sample_element ''Arial'' 10 1.4"]
  by (simp add: sample_element_def categorize_samples)


section \<open>Properties of analyzeReadability\<close>











section \<open>Properties of analyzeHierarchy\<close>

lemma sort_descending_set: "set (sort_descending xs) = set xs"
  by (simp add: sort_descending_def)

lemma sort_descending_length: "length (sort_descending xs) = length xs"
  by (simp add: sort_descending_def)

lemma sort_descending_sorted:
  assumes "sorted_wrt (\<ge>) xs"
  shows "sort_descending xs = xs"
proof -
  have "sorted (rev xs)" using assms by (simp add: sorted_wrt_rev)
  then have "sort xs = rev xs" by (intro properties_for_sort) simp_all
  then show ?thesis by (simp add: sort_descending_def)
qed

text \<open>A quotient in \<open>[1.15, 3.0]\<close> is computed as a double that is not a poor ratio.\<close>

lemma js_divide_in_range:
  assumes "1.15 \<le> a / b" and "a / b \<le> 3.0"
  shows "\<exists>r. js_divide a b = Finite r \<and> round_double 1.15 \<le> r \<and> r \<le> 3.0"
proof -
  have b: "b \<noteq> 0" using assms(1) by auto
  have lo: "round_double 1.15 \<le> round_double (a / b)"
    using assms(1) by (rule round_double_from_1_15)
  have "(1::real) \<le> 1.15" by simp
  then have "1 \<le> a / b" using assms(1) by linarith
  then have hi: "round_double (a / b) \<le> 3" using assms(2) by (intro round_double_up_to_3) simp_all
  have "0 \<le> round_double 1.15" unfolding double_1_15 by simp
  then have "0 \<le> round_double (a / b)" using lo by linarith
  then have "js_round (a / b) = Finite (round_double (a / b))" using hi by (rule js_round_finite)
  then show ?thesis using b lo hi by (simp add: js_divide_def)
qed

text \<open>The result type for any sizes: \<open>info\<close> exactly when some computed ratio is poor.\<close>

lemma analyzeHierarchy_type:
  assumes "2 \<le> length elements"
  shows "map_option rtype (analyzeHierarchy elements) =
     Some (if (\<exists>i. Suc i < length elements \<and>
                 (number_less (js_divide (sort_descending (map fontSize elements) ! i)
                                 (sort_descending (map fontSize elements) ! Suc i))
                              (round_double 1.15)
                  \<or> number_greater (js_divide (sort_descending (map fontSize elements) ! i)
                                 (sort_descending (map fontSize elements) ! Suc i)) 3.0))
           then Info else Success)"
proof -
  let ?s = "sort_descending (map fontSize elements)"
  let ?poor = "\<lambda>ratio. number_less ratio (round_double 1.15) \<or> number_greater ratio 3.0"
  let ?ratios = "map (\<lambda>i. js_divide (?s ! i) (?s ! (i + 1))) [0..<length ?s - 1]"
  have "(0 < length (filter ?poor ?ratios)) = (\<exists>r\<in>set ?ratios. ?poor r)"
    by (simp add: filter_empty_conv)
  also have "\<dots> = (\<exists>i. Suc i < length elements \<and> ?poor (js_divide (?s ! i) (?s ! Suc i)))"
    by (auto simp: sort_descending_length less_diff_conv)
  finally have key: "(0 < length (filter ?poor ?ratios)) =
     (\<exists>i. Suc i < length elements \<and> ?poor (js_divide (?s ! i) (?s ! Suc i)))" .
  have "map_option rtype (analyzeHierarchy elements) =
          Some (if 0 < length (filter ?poor ?ratios) then Info else Success)"
    using assms by (auto simp: analyzeHierarchy_def Let_def filter_map)
  then show ?thesis by (simp only: key)
qed

text \<open>
  C7. The claim promises \<open>success\<close> for every descending sequence of sizes all of whose
  consecutive ratios lie in \<open>[1.15, 3.0]\<close>, and \<open>info\<close> when some ratio is below 1.15 or above
  3.0. A single element is such a sequence (it has no consecutive ratio), and
  \<open>analyzeHierarchy\<close> returns no result for it. And the ratio that the code compares is the
  rounded quotient, the bound the double 1.15: for the sizes 1.15 and 1 the ratio is the
  double 1.15, whose value is below 1.15, and the result is \<open>success\<close>.
\<close>

theorem analyzeHierarchy_ratios_counterexample:
  "analyzeHierarchy [sample_element ''Arial'' 12 1.4] = None
   \<and> round_double 1.15 / 1 < 1.15
   \<and> map_option rtype (analyzeHierarchy
        [sample_element ''Arial'' (round_double 1.15) 1.4, sample_element ''Arial'' 1 1.4])
       = Some Success"
proof -
  define d where "d = round_double 1.15"
  have dv: "d = 2589569785738035 / 2251799813685248" unfolding d_def by (rule double_1_15)
  have t: "round_double (23 / 20) = d" unfolding d_def by simp
  have d3: "\<not> 3 < d" by (simp add: dv)
  have s: "sort_descending [d, 1] = [d, 1]"
    by (intro sort_descending_sorted) (simp add: dv)
  have q: "js_divide d 1 = Finite d"
    unfolding dv by (simp add: js_divide_def js_round_def double_eval)
  have "map_option rtype (analyzeHierarchy
        [sample_element ''Arial'' d 1.4, sample_element ''Arial'' 1 1.4]) = Some Success"
    by (simp add: analyzeHierarchy_def sample_element_def s q t d3 Let_def)
  moreover have "d / 1 < 1.15" by (simp add: dv)
  moreover have "analyzeHierarchy [sample_element ''Arial'' 12 1.4] = None"
    by (simp add: analyzeHierarchy_def)
  ultimately show ?thesis unfolding d_def by simp
qed

text \<open>
  C7, as amended (at least two elements, computed ratios). For two or more elements, let
  \<open>sizes\<close> be the sizes in descending order. If every consecutive ratio
  \<open>sizes[i] / sizes[i+1]\<close> lies in \<open>[1.15, 3.0]\<close> the result is \<open>success\<close>. If some computed
  ratio, the quotient rounded to a double, is below the double 1.15 or above 3.0 the
  result is \<open>info\<close>, and if none is the result is \<open>success\<close>. Sizes that are already
  descending are compared in the order given.
\<close>

theorem analyzeHierarchy_computed_ratios:
  assumes "2 \<le> length elements"
  shows "let sizes = sort_descending (map fontSize elements) in
     ((\<forall>i. Suc i < length sizes \<longrightarrow>
           1.15 \<le> sizes ! i / sizes ! Suc i \<and> sizes ! i / sizes ! Suc i \<le> 3.0)
        \<longrightarrow> map_option rtype (analyzeHierarchy elements) = Some Success)
     \<and> ((\<exists>i. Suc i < length sizes \<and>
             (number_less (js_divide (sizes ! i) (sizes ! Suc i)) (round_double 1.15)
              \<or> number_greater (js_divide (sizes ! i) (sizes ! Suc i)) 3.0))
        \<longrightarrow> map_option rtype (analyzeHierarchy elements) = Some Info)
     \<and> ((\<forall>i. Suc i < length sizes \<longrightarrow>
             \<not> number_less (js_divide (sizes ! i) (sizes ! Suc i)) (round_double 1.15)
             \<and> \<not> number_greater (js_divide (sizes ! i) (sizes ! Suc i)) 3.0)
        \<longrightarrow> map_option rtype (analyzeHierarchy elements) = Some Success)
     \<and> (sorted_wrt (\<ge>) (map fontSize elements) \<longrightarrow> sizes = map fontSize elements)"
proof -
  let ?s = "sort_descending (map fontSize elements)"
  let ?poor = "\<lambda>i. number_less (js_divide (?s ! i) (?s ! Suc i)) (round_double 1.15)
                  \<or> number_greater (js_divide (?s ! i) (?s ! Suc i)) 3.0"
  have len: "length ?s = length elements" by (simp add: sort_descending_length)
  have ty: "map_option rtype (analyzeHierarchy elements) =
     Some (if (\<exists>i. Suc i < length elements \<and> ?poor i) then Info else Success)"
    by (rule analyzeHierarchy_type [OF assms])
  have fine: "\<not> ?poor i" if lo: "1.15 \<le> ?s ! i / ?s ! Suc i" and hi: "?s ! i / ?s ! Suc i \<le> 3.0" for i
  proof -
    obtain r where "js_divide (?s ! i) (?s ! Suc i) = Finite r" "round_double 1.15 \<le> r" "r \<le> 3.0"
      using js_divide_in_range [OF lo hi] by blast
    then show ?thesis by simp
  qed
  have a: "(\<forall>i. Suc i < length ?s \<longrightarrow>
           1.15 \<le> ?s ! i / ?s ! Suc i \<and> ?s ! i / ?s ! Suc i \<le> 3.0)
        \<longrightarrow> map_option rtype (analyzeHierarchy elements) = Some Success"
  proof
    assume h: "\<forall>i. Suc i < length ?s \<longrightarrow>
           1.15 \<le> ?s ! i / ?s ! Suc i \<and> ?s ! i / ?s ! Suc i \<le> 3.0"
    have "\<not> (\<exists>i. Suc i < length elements \<and> ?poor i)"
    proof
      assume "\<exists>i. Suc i < length elements \<and> ?poor i"
      then obtain i where i: "Suc i < length elements" and p: "?poor i" by blast
      from h i have "1.15 \<le> ?s ! i / ?s ! Suc i" "?s ! i / ?s ! Suc i \<le> 3.0"
        by (simp_all only: len)
      then have "\<not> ?poor i" by (rule fine)
      then show False using p by blast
    qed
    then show "map_option rtype (analyzeHierarchy elements) = Some Success"
      by (simp only: ty if_False)
  qed
  have b: "(\<exists>i. Suc i < length ?s \<and> ?poor i)
        \<longrightarrow> map_option rtype (analyzeHierarchy elements) = Some Info"
    by (simp only: ty len) simp
  have c: "(\<forall>i. Suc i < length ?s \<longrightarrow>
             \<not> number_less (js_divide (?s ! i) (?s ! Suc i)) (round_double 1.15)
             \<and> \<not> number_greater (js_divide (?s ! i) (?s ! Suc i)) 3.0)
        \<longrightarrow> map_option rtype (analyzeHierarchy elements) = Some Success"
    by (simp only: ty len) auto
  have d: "sorted_wrt (\<ge>) (map fontSize elements) \<longrightarrow> ?s = map fontSize elements"
    by (simp add: sort_descending_sorted)
  from a b c d show ?thesis by (simp only: Let_def)
qed

theorem analyzeHierarchy_computed_ratios_witness:
  "map_option rtype (analyzeHierarchy
      [sample_element ''Arial'' 24 1.4, sample_element ''Arial'' 18 1.4,
       sample_element ''Arial'' 12 1.4]) = Some Success
   \<and> map_option rtype (analyzeHierarchy
      [sample_element ''Arial'' (round_double 33.6) 1.4,
       sample_element ''Arial'' (round_double 11.2) 1.4]) = Some Info"
proof -
  have s1: "sort_descending [24, 18, 12] = [24, 18, 12::real]"
    by (rule sort_descending_sorted) simp
  have v1: "round_double 33.6 = 4728779608739021 / 140737488355328"
    by (simp add: double_eval)
  have v2: "round_double 11.2 = 3152519739159347 / 281474976710656"
    by (simp add: double_eval)
  have s2: "sort_descending [4728779608739021 / 140737488355328, 3152519739159347 / 281474976710656]
              = [4728779608739021 / 140737488355328, 3152519739159347 / 281474976710656 :: real]"
    by (rule sort_descending_sorted) simp
  have q: "js_divide (4728779608739021 / 140737488355328) (3152519739159347 / 281474976710656)
             = Finite (6755399441055745 / 2251799813685248)"
    by (simp add: js_divide_def js_round_def double_eval)
  have "map_option rtype (analyzeHierarchy
      [sample_element ''Arial'' 24 1.4, sample_element ''Arial'' 18 1.4,
       sample_element ''Arial'' 12 1.4]) = Some Success"
    using analyzeHierarchy_computed_ratios
      [of "[sample_element ''Arial'' 24 1.4, sample_element ''Arial'' 18 1.4,
            sample_element ''Arial'' 12 1.4]"]
    by (simp add: sample_element_def s1 Let_def less_Suc_eq)
  moreover have "map_option rtype (analyzeHierarchy
      [sample_element ''Arial'' (4728779608739021 / 140737488355328) 1.4,
       sample_element ''Arial'' (3152519739159347 / 281474976710656) 1.4]) = Some Info"
    using analyzeHierarchy_computed_ratios
      [of "[sample_element ''Arial'' (4728779608739021 / 140737488355328) 1.4,
            sample_element ''Arial'' (3152519739159347 / 281474976710656) 1.4]"]
    by (simp add: sample_element_def s2 q Let_def)
  ultimately show ?thesis unfolding v1 v2 by simp
qed


section \<open>Properties of the rule engine and of applyTypographyFix\<close>

text \<open>
  C10. The claim speaks of every rule that defines \<open>lineHeight\<close> and not \<open>fontSize\<close>. The
  guard \<open>if (rule.lineHeight)\<close> is false for a line height of 0: such a rule writes nothing,
  and the leading keeps its value.
\<close>

theorem applyFormattingRule_zero_lineHeight_counterexample:
  "rule_fontSize ((sample_rule ''all'')\<lparr>rule_lineHeight := Some 0\<rparr>) = None
   \<and> rule_lineHeight ((sample_rule ''all'')\<lparr>rule_lineHeight := Some 0\<rparr>) = Some 0
   \<and> leading (applyFormattingRule sample_fonts sample_parseHex sample_frame
                ((sample_rule ''all'')\<lparr>rule_lineHeight := Some 0\<rparr>)) = Finite 12"
  by (simp add: applyFormattingRule_def sample_rule_def sample_frame_def)

text \<open>
  C10, as amended (a line height other than 0). A rule that defines a non-zero \<open>lineHeight\<close>
  and no \<open>fontSize\<close> sets the leading to \<open>undefined * lineHeight\<close>, which is \<open>NaN\<close>, whatever
  the current font size of the element.
\<close>

theorem applyFormattingRule_leading_NaN:
  assumes "rule_fontSize rule = None" and "rule_lineHeight rule = Some h" and "h \<noteq> 0"
  shows "leading (applyFormattingRule getByName parseHex textRange rule) = NaN"
  using assms
  by (simp add: applyFormattingRule_def js_times_def Let_def split: option.splits)

theorem applyFormattingRule_leading_NaN_witness:
  "rule_fontSize ((sample_rule ''all'')\<lparr>rule_lineHeight := Some 1.2\<rparr>) = None
   \<and> leading (applyFormattingRule sample_fonts sample_parseHex sample_frame
                ((sample_rule ''all'')\<lparr>rule_lineHeight := Some 1.2\<rparr>)) = NaN"
  using applyFormattingRule_leading_NaN
    [of "(sample_rule ''all'')\<lparr>rule_lineHeight := Some 1.2\<rparr>" "1.2" sample_fonts sample_parseHex
        sample_frame]
  by (simp add: sample_rule_def)

text \<open>
  C4. The claim has every property that is defined on the rule written. A font family
  that the host does not have is defined on the rule and is not written (the lookup throws
  and the handler continues), and a character spacing of 0 is defined on the rule and is
  skipped by the guard \<open>if (rule.characterSpacing)\<close>.
\<close>

theorem applyFormattingRule_writes_counterexample:
  "fontFamily ((sample_rule ''all'')\<lparr>fontFamily := Some ''Papyrus''\<rparr>) = Some ''Papyrus''
   \<and> shouldApplyRule sample_frame ((sample_rule ''all'')\<lparr>fontFamily := Some ''Papyrus''\<rparr>)
   \<and> textFont (applyFormattingRule sample_fonts sample_parseHex sample_frame
                 ((sample_rule ''all'')\<lparr>fontFamily := Some ''Papyrus''\<rparr>)) = ''Arial''
   \<and> rule_characterSpacing ((sample_rule ''all'')\<lparr>rule_characterSpacing := Some 0\<rparr>) = Some 0
   \<and> tracking (applyFormattingRule sample_fonts sample_parseHex (sample_frame\<lparr>tracking := 50\<rparr>)
                 ((sample_rule ''all'')\<lparr>rule_characterSpacing := Some 0\<rparr>)) = 50"
  by (simp add: applyFormattingRule_def shouldApplyRule_def sample_rule_def sample_frame_def
        sample_fonts_def)

text \<open>The outer loop of \<open>batchFormatText\<close> treats the frames one by one.\<close>

lemma batch_fold:
  "n \<le> length tfs \<Longrightarrow>
   fold (\<lambda>i (frames, results).
           case apply_rules getByName parseHex rules (frames ! i) of
             (tf, applied) \<Rightarrow>
               (frames[i := tf], results @ [\<lparr>frame_index = i, appliedRules = applied\<rparr>]))
        [0..<n] (tfs, [])
   = (map (\<lambda>tf. fst (apply_rules getByName parseHex rules tf)) (take n tfs) @ drop n tfs,
      map (\<lambda>i. \<lparr>frame_index = i,
                 appliedRules = snd (apply_rules getByName parseHex rules (tfs ! i))\<rparr>) [0..<n])"
proof (induction n)
  case 0
  show ?case by simp
next
  case (Suc n)
  then have n: "n < length tfs" by simp
  have nth: "(map (\<lambda>tf. fst (apply_rules getByName parseHex rules tf)) (take n tfs) @ drop n tfs) ! n
               = tfs ! n"
    using n by (simp add: nth_append)
  have upd: "(map (\<lambda>tf. fst (apply_rules getByName parseHex rules tf)) (take n tfs) @ drop n tfs)
               [n := x]
             = map (\<lambda>tf. fst (apply_rules getByName parseHex rules tf)) (take n tfs) @ x # drop (Suc n) tfs"
    for x
    using n by (simp add: list_update_append upd_conv_take_nth_drop)
  show ?case
    using Suc.IH n
    by (simp add: nth upd take_Suc_conv_app_nth split_def del: upt_Suc add: upt_Suc_append)
qed

lemma batchFormatText_frames:
  "batchFormatText getByName parseHex (Some tfs) rules =
     (BatchSucceeded (length tfs)
        (map (\<lambda>i. \<lparr>frame_index = i,
                   appliedRules = snd (apply_rules getByName parseHex rules (tfs ! i))\<rparr>)
           [0..<length tfs]),
      Some (map (\<lambda>tf. fst (apply_rules getByName parseHex rules tf)) tfs))"
  using batch_fold [of "length tfs" tfs getByName parseHex rules]
  by (simp add: batchFormatText_def)


text \<open>
  The frame that the inner loop leaves is the fold, over the rules in order, of "apply the
  rule if its selector matches".
\<close>

lemma apply_rules_frame:
  "fst (apply_rules getByName parseHex rules tf) =
     fold (\<lambda>r t. if shouldApplyRule t r then applyFormattingRule getByName parseHex t r else t)
       rules tf"
proof -
  let ?step = "\<lambda>r t. if shouldApplyRule t r then applyFormattingRule getByName parseHex t r else t"
  have gen: "fst (fold (\<lambda>j (tf, applied).
        let rule = rules ! j
        in if shouldApplyRule tf rule then
             (applyFormattingRule getByName parseHex tf rule,
              applied @ [case rule_name rule of
                           None \<Rightarrow> ''rule_'' @ nat_to_string j
                         | Some n \<Rightarrow> if n = [] then ''rule_'' @ nat_to_string j else n])
           else (tf, applied)) js (t, a))
     = fold (\<lambda>j. ?step (rules ! j)) js t" for js t a
    by (induction js arbitrary: t a) (simp_all add: Let_def)
  have "fold (\<lambda>j. ?step (rules ! j)) [0..<length rules] tf
          = fold ?step (map (nth rules) [0..<length rules]) tf"
    by (simp add: fold_map comp_def)
  also have "\<dots> = fold ?step rules tf" by (simp only: map_nth)
  finally show ?thesis using gen [of "[0..<length rules]" tf "[]"]
    by (simp add: apply_rules_def)
qed

lemma shouldApplyRule_unknown:
  "selector rule \<notin> {''all'', ''heading'', ''body'', ''contains''} \<Longrightarrow> \<not> shouldApplyRule tf rule"
  by (simp add: shouldApplyRule_def)

lemma fold_known_rules:
  "fold (\<lambda>r t. if shouldApplyRule t r then applyFormattingRule getByName parseHex t r else t)
     (filter (\<lambda>r. selector r \<in> {''all'', ''heading'', ''body'', ''contains''}) rules) tf
   = fold (\<lambda>r t. if shouldApplyRule t r then applyFormattingRule getByName parseHex t r else t)
       rules tf"
proof (induction rules arbitrary: tf)
  case Nil
  show ?case by simp
next
  case (Cons r rules)
  show ?case
  proof (cases "selector r \<in> {''all'', ''heading'', ''body'', ''contains''}")
    case True
    then show ?thesis using Cons.IH by simp
  next
    case False
    then have "\<not> shouldApplyRule tf r" by (rule shouldApplyRule_unknown)
    then show ?thesis using False Cons.IH [of tf] by simp
  qed
qed

text \<open>
  C9. The claim has an unknown selector surfaced as a failure that names it.
  \<open>shouldApplyRule\<close> returns false on an unknown selector, so the rule is passed over and the
  batch reports success: here for the selector \<open>subheading\<close>.
\<close>

theorem invalid_configuration_counterexample:
  "selector ((sample_rule ''subheading'')\<lparr>rule_fontSize := Some 18\<rparr>)
     \<notin> {''all'', ''heading'', ''body'', ''contains''}
   \<and> batchFormatText sample_fonts sample_parseHex (Some [sample_frame])
        [(sample_rule ''subheading'')\<lparr>rule_fontSize := Some 18\<rparr>]
      = (BatchSucceeded 1 [\<lparr>frame_index = 0, appliedRules = []\<rparr>], Some [sample_frame])"
  by (simp add: batchFormatText_def apply_rules_def shouldApplyRule_def sample_rule_def)

text \<open>
  C9, as amended. An unknown fix type makes \<open>applyTypographyFix\<close> fail with the message
  \<open>Error: Unknown fix type: \<close> followed by the fix type, and leaves the selection as it was.
  A rule with an unknown selector applies to no frame and raises no failure:
  \<open>batchFormatText\<close> succeeds and leaves the frames as the same batch without the rules of
  unknown selector leaves them.
\<close>

theorem invalid_configuration:
  "(fixType \<notin> {''kerning'', ''hierarchy'', ''readability'', ''alignment''} \<longrightarrow>
      applyTypographyFix (Some selection) fixType parameters
        = (FixFailed (''Error: Unknown fix type: '' @ fixType), Some selection))
   \<and> (selector rule \<notin> {''all'', ''heading'', ''body'', ''contains''} \<longrightarrow>
        \<not> shouldApplyRule textFrame rule)
   \<and> (\<exists>results.
        batchFormatText getByName parseHex (Some textFrames) rules
          = (BatchSucceeded (length textFrames) results,
             snd (batchFormatText getByName parseHex (Some textFrames)
                    (filter (\<lambda>r. selector r \<in> {''all'', ''heading'', ''body'', ''contains''}) rules))))"
proof (intro conjI impI)
  assume "fixType \<notin> {''kerning'', ''hierarchy'', ''readability'', ''alignment''}"
  then show "applyTypographyFix (Some selection) fixType parameters
        = (FixFailed (''Error: Unknown fix type: '' @ fixType), Some selection)"
    by (simp add: applyTypographyFix_def)
next
  assume "selector rule \<notin> {''all'', ''heading'', ''body'', ''contains''}"
  then show "\<not> shouldApplyRule textFrame rule" by (rule shouldApplyRule_unknown)
next
  show "\<exists>results.
        batchFormatText getByName parseHex (Some textFrames) rules
          = (BatchSucceeded (length textFrames) results,
             snd (batchFormatText getByName parseHex (Some textFrames)
                    (filter (\<lambda>r. selector r \<in> {''all'', ''heading'', ''body'', ''contains''}) rules)))"
    using fold_known_rules [of getByName parseHex rules]
    by (simp add: batchFormatText_frames apply_rules_frame)
qed

theorem invalid_configuration_witness:
  "''spacing'' \<notin> {''kerning'', ''hierarchy'', ''readability'', ''alignment''}
   \<and> applyTypographyFix (Some [sample_frame]) ''spacing'' sample_parameters
        = (FixFailed ''Error: Unknown fix type: spacing'', Some [sample_frame])
   \<and> \<not> shouldApplyRule sample_frame ((sample_rule ''subheading'')\<lparr>rule_fontSize := Some 18\<rparr>)
   \<and> (\<exists>results.
        batchFormatText sample_fonts sample_parseHex (Some [sample_frame])
          [(sample_rule ''subheading'')\<lparr>rule_fontSize := Some 18\<rparr>, heading_rule]
        = (BatchSucceeded 1 results,
           snd (batchFormatText sample_fonts sample_parseHex (Some [sample_frame]) [heading_rule])))"
  using invalid_configuration
    [where fixType = "''spacing''" and selection = "[sample_frame]"
       and parameters = sample_parameters
       and rule = "(sample_rule ''subheading'')\<lparr>rule_fontSize := Some 18\<rparr>"
       and textFrame = sample_frame and getByName = sample_fonts and parseHex = sample_parseHex
       and textFrames = "[sample_frame]"
       and rules = "[(sample_rule ''subheading'')\<lparr>rule_fontSize := Some 18\<rparr>, heading_rule]"]
  by (simp add: sample_rule_def heading_rule_def)

text \<open>
  C4, as amended. \<open>applyFormattingRule\<close> writes each property whose value on the rule is
  defined and is not 0 or the empty string: the font of the rule's \<open>fontFamily\<close> when the host
  has a font of that name (the font is kept otherwise), the \<open>fontSize\<close>, the leading
  \<open>rule.fontSize * rule.lineHeight\<close> when the rule defines both, the \<open>characterSpacing\<close> and
  the colour read from the \<open>color\<close> text. A property that the rule does not define keeps its
  value, and so do the properties that no rule writes. The rule
  \<open>{selector: "heading", headingThreshold: 18, fontSize: 24}\<close> applies to a frame of size 20 and
  only changes its size, to 24; it does not apply to a frame of size 16, which the batch
  leaves as it was.
\<close>

theorem applyFormattingRule_writes:
  "(case fontFamily rule of
      None \<Rightarrow> textFont (applyFormattingRule getByName parseHex textRange rule) = textFont textRange
    | Some f \<Rightarrow> f \<noteq> [] \<longrightarrow>
        textFont (applyFormattingRule getByName parseHex textRange rule)
          = (case getByName f of None \<Rightarrow> textFont textRange | Some font \<Rightarrow> font))
   \<and> (case rule_fontSize rule of
      None \<Rightarrow> font_size (applyFormattingRule getByName parseHex textRange rule) = font_size textRange
    | Some s \<Rightarrow> s \<noteq> 0 \<longrightarrow>
        font_size (applyFormattingRule getByName parseHex textRange rule) = s)
   \<and> (case rule_lineHeight rule of
      None \<Rightarrow> leading (applyFormattingRule getByName parseHex textRange rule) = leading textRange
    | Some h \<Rightarrow> h \<noteq> 0 \<longrightarrow>
        (\<forall>s. rule_fontSize rule = Some s \<longrightarrow>
           leading (applyFormattingRule getByName parseHex textRange rule) = Finite (s * h)))
   \<and> (case rule_characterSpacing rule of
      None \<Rightarrow> tracking (applyFormattingRule getByName parseHex textRange rule) = tracking textRange
    | Some c \<Rightarrow> c \<noteq> 0 \<longrightarrow>
        tracking (applyFormattingRule getByName parseHex textRange rule) = c)
   \<and> (case color rule of
      None \<Rightarrow> fillColor (applyFormattingRule getByName parseHex textRange rule) = fillColor textRange
    | Some c \<Rightarrow> c \<noteq> [] \<longrightarrow>
        fillColor (applyFormattingRule getByName parseHex textRange rule)
          = \<lparr>red = parseHex (substring c 1 3), green = parseHex (substring c 3 5),
             blue = parseHex (substring c 5 7)\<rparr>)
   \<and> typename (applyFormattingRule getByName parseHex textRange rule) = typename textRange
   \<and> contents (applyFormattingRule getByName parseHex textRange rule) = contents textRange
   \<and> autoKernType (applyFormattingRule getByName parseHex textRange rule) = autoKernType textRange
   \<and> justification (applyFormattingRule getByName parseHex textRange rule) = justification textRange
   \<and> (font_size textRange = 20 \<longrightarrow>
        shouldApplyRule textRange heading_rule
        \<and> applyFormattingRule getByName parseHex textRange heading_rule = textRange\<lparr>font_size := 24\<rparr>
        \<and> batchFormatText getByName parseHex (Some [textRange]) [heading_rule]
            = (BatchSucceeded 1 [\<lparr>frame_index = 0, appliedRules = [''rule_0'']\<rparr>],
               Some [textRange\<lparr>font_size := 24\<rparr>]))
   \<and> (font_size textRange = 16 \<longrightarrow>
        \<not> shouldApplyRule textRange heading_rule
        \<and> batchFormatText getByName parseHex (Some [textRange]) [heading_rule]
            = (BatchSucceeded 1 [\<lparr>frame_index = 0, appliedRules = []\<rparr>], Some [textRange]))"
proof -
  have nm: "nat_to_string 0 = ''0''" by (simp add: nat_to_string_def)
  have props: "(case fontFamily rule of
      None \<Rightarrow> textFont (applyFormattingRule getByName parseHex textRange rule) = textFont textRange
    | Some f \<Rightarrow> f \<noteq> [] \<longrightarrow>
        textFont (applyFormattingRule getByName parseHex textRange rule)
          = (case getByName f of None \<Rightarrow> textFont textRange | Some font \<Rightarrow> font))"
    "(case rule_fontSize rule of
      None \<Rightarrow> font_size (applyFormattingRule getByName parseHex textRange rule) = font_size textRange
    | Some s \<Rightarrow> s \<noteq> 0 \<longrightarrow>
        font_size (applyFormattingRule getByName parseHex textRange rule) = s)"
    "(case rule_lineHeight rule of
      None \<Rightarrow> leading (applyFormattingRule getByName parseHex textRange rule) = leading textRange
    | Some h \<Rightarrow> h \<noteq> 0 \<longrightarrow>
        (\<forall>s. rule_fontSize rule = Some s \<longrightarrow>
           leading (applyFormattingRule getByName parseHex textRange rule) = Finite (s * h)))"
    "(case rule_characterSpacing rule of
      None \<Rightarrow> tracking (applyFormattingRule getByName parseHex textRange rule) = tracking textRange
    | Some c \<Rightarrow> c \<noteq> 0 \<longrightarrow>
        tracking (applyFormattingRule getByName parseHex textRange rule) = c)"
    "(case color rule of
      None \<Rightarrow> fillColor (applyFormattingRule getByName parseHex textRange rule) = fillColor textRange
    | Some c \<Rightarrow> c \<noteq> [] \<longrightarrow>
        fillColor (applyFormattingRule getByName parseHex textRange rule)
          = \<lparr>red = parseHex (substring c 1 3), green = parseHex (substring c 3 5),
             blue = parseHex (substring c 5 7)\<rparr>)"
    by (simp_all add: applyFormattingRule_def js_times_def Let_def split: option.splits)
  have frame: "typename (applyFormattingRule getByName parseHex textRange rule) = typename textRange"
    "contents (applyFormattingRule getByName parseHex textRange rule) = contents textRange"
    "autoKernType (applyFormattingRule getByName parseHex textRange rule) = autoKernType textRange"
    "justification (applyFormattingRule getByName parseHex textRange rule) = justification textRange"
    by (simp_all add: applyFormattingRule_def Let_def split: option.splits)
  have s20: "font_size textRange = 20 \<longrightarrow>
        shouldApplyRule textRange heading_rule
        \<and> applyFormattingRule getByName parseHex textRange heading_rule = textRange\<lparr>font_size := 24\<rparr>
        \<and> batchFormatText getByName parseHex (Some [textRange]) [heading_rule]
            = (BatchSucceeded 1 [\<lparr>frame_index = 0, appliedRules = [''rule_0'']\<rparr>],
               Some [textRange\<lparr>font_size := 24\<rparr>])"
    by (simp add: batchFormatText_def apply_rules_def shouldApplyRule_def applyFormattingRule_def
          heading_rule_def sample_rule_def or_default_def nm)
  have s16: "font_size textRange = 16 \<longrightarrow>
        \<not> shouldApplyRule textRange heading_rule
        \<and> batchFormatText getByName parseHex (Some [textRange]) [heading_rule]
            = (BatchSucceeded 1 [\<lparr>frame_index = 0, appliedRules = []\<rparr>], Some [textRange])"
    by (simp add: batchFormatText_def apply_rules_def shouldApplyRule_def
          heading_rule_def sample_rule_def or_default_def)
  from props frame s20 s16 show ?thesis by (intro conjI)
qed

theorem applyFormattingRule_writes_witness:
  "font_size (sample_frame\<lparr>font_size := 20\<rparr>) = 20
   \<and> applyFormattingRule sample_fonts sample_parseHex (sample_frame\<lparr>font_size := 20\<rparr>) heading_rule
       = sample_frame\<lparr>font_size := 24\<rparr>
   \<and> textFont (applyFormattingRule sample_fonts sample_parseHex sample_frame
        ((sample_rule ''all'')\<lparr>fontFamily := Some ''Georgia'', rule_fontSize := Some 10,
           rule_lineHeight := Some 1.5, color := Some ''#ff8000''\<rparr>)) = ''Georgia''
   \<and> leading (applyFormattingRule sample_fonts sample_parseHex sample_frame
        ((sample_rule ''all'')\<lparr>fontFamily := Some ''Georgia'', rule_fontSize := Some 10,
           rule_lineHeight := Some 1.5, color := Some ''#ff8000''\<rparr>)) = Finite 15
   \<and> fillColor (applyFormattingRule sample_fonts sample_parseHex sample_frame
        ((sample_rule ''all'')\<lparr>fontFamily := Some ''Georgia'', rule_fontSize := Some 10,
           rule_lineHeight := Some 1.5, color := Some ''#ff8000''\<rparr>))
       = \<lparr>red = Finite 255, green = Finite 128, blue = Finite 0\<rparr>"
proof -
  let ?r = "(sample_rule ''all'')\<lparr>fontFamily := Some ''Georgia'', rule_fontSize := Some 10,
           rule_lineHeight := Some 1.5, color := Some ''#ff8000''\<rparr>"
  have hex: "sample_parseHex ''ff'' = Finite 255" "sample_parseHex ''80'' = Finite 128"
    "sample_parseHex ''00'' = Finite 0"
    by (simp_all add: sample_parseHex_def hex_digit_def)
  have a: "applyFormattingRule sample_fonts sample_parseHex (sample_frame\<lparr>font_size := 20\<rparr>) heading_rule
       = sample_frame\<lparr>font_size := 24\<rparr>"
    using applyFormattingRule_writes
      [where rule = heading_rule and getByName = sample_fonts and parseHex = sample_parseHex
         and textRange = "sample_frame\<lparr>font_size := 20\<rparr>"]
    by simp
  have b: "textFont (applyFormattingRule sample_fonts sample_parseHex sample_frame ?r) = ''Georgia''
    \<and> leading (applyFormattingRule sample_fonts sample_parseHex sample_frame ?r) = Finite 15
    \<and> fillColor (applyFormattingRule sample_fonts sample_parseHex sample_frame ?r)
       = \<lparr>red = Finite 255, green = Finite 128, blue = Finite 0\<rparr>"
    using applyFormattingRule_writes
      [where rule = ?r and getByName = sample_fonts and parseHex = sample_parseHex
         and textRange = sample_frame]
    by (simp add: sample_rule_def sample_fonts_def substring_def hex)
  from a b show ?thesis by simp
qed


section \<open>Properties of applyHierarchyFix\<close>

text \<open>
  The loop over the sorted entries writes one frame per pass. When the entries point at
  different frames of the selection, the frame of entry \<open>j\<close> ends with the size computed in
  pass \<open>j\<close> and every other frame is as it was.
\<close>

lemma fix_fold:
  fixes es :: "frame_entry list" and f :: "nat \<Rightarrow> real"
  assumes d: "distinct (map entry_index es)"
    and bound: "\<forall>e\<in>set es. entry_index e < length sel"
  shows "m \<le> length es \<Longrightarrow>
    \<exists>S. fold (\<lambda>j (s, results).
            (s[entry_index (es ! j) := (s ! entry_index (es ! j))\<lparr>font_size := f j\<rparr>],
             results @ [\<lparr>index = entry_index (es ! j), oldSize = entry_size (es ! j),
                          newSize = f j\<rparr>]))
          [0..<m] (sel, [])
        = (S, map (\<lambda>j. \<lparr>index = entry_index (es ! j), oldSize = entry_size (es ! j),
                           newSize = f j\<rparr>) [0..<m])
      \<and> length S = length sel
      \<and> (\<forall>j<m. S ! entry_index (es ! j) = (sel ! entry_index (es ! j))\<lparr>font_size := f j\<rparr>)
      \<and> (\<forall>i<length sel. (\<forall>j<m. entry_index (es ! j) \<noteq> i) \<longrightarrow> S ! i = sel ! i)"
proof (induction m)
  case 0
  show ?case by simp
next
  case (Suc m)
  let ?F = "\<lambda>j (s, results).
            (s[entry_index (es ! j) := (s ! entry_index (es ! j))\<lparr>font_size := f j\<rparr>],
             results @ [\<lparr>index = entry_index (es ! j), oldSize = entry_size (es ! j),
                          newSize = f j\<rparr>])"
  let ?R = "\<lambda>j. \<lparr>index = entry_index (es ! j), oldSize = entry_size (es ! j), newSize = f j\<rparr>"
  from Suc obtain S where
    run: "fold ?F [0..<m] (sel, []) = (S, map ?R [0..<m])"
    and len: "length S = length sel"
    and hit: "\<forall>j<m. S ! entry_index (es ! j) = (sel ! entry_index (es ! j))\<lparr>font_size := f j\<rparr>"
    and miss: "\<forall>i<length sel. (\<forall>j<m. entry_index (es ! j) \<noteq> i) \<longrightarrow> S ! i = sel ! i"
    by auto
  let ?i = "entry_index (es ! m)"
  have m: "m < length es" using Suc.prems by simp
  have im: "?i < length sel" using bound m by simp
  have fresh: "\<forall>j<m. entry_index (es ! j) \<noteq> ?i"
  proof (intro allI impI)
    fix j assume "j < m"
    moreover from d have "\<forall>a<length es. \<forall>b<length es.
        a \<noteq> b \<longrightarrow> entry_index (es ! a) \<noteq> entry_index (es ! b)"
      by (simp add: distinct_conv_nth)
    ultimately show "entry_index (es ! j) \<noteq> ?i" using m by auto
  qed
  have Si: "S ! ?i = sel ! ?i" using miss im fresh by simp
  let ?S' = "S[?i := (S ! ?i)\<lparr>font_size := f m\<rparr>]"
  have run': "fold ?F [0..<Suc m] (sel, []) = (?S', map ?R [0..<Suc m])"
    by (simp add: run)
  have len': "length ?S' = length sel" using len by simp
  have hit': "\<forall>j<Suc m. ?S' ! entry_index (es ! j) = (sel ! entry_index (es ! j))\<lparr>font_size := f j\<rparr>"
  proof (intro allI impI)
    fix j assume j: "j < Suc m"
    show "?S' ! entry_index (es ! j) = (sel ! entry_index (es ! j))\<lparr>font_size := f j\<rparr>"
    proof (cases "j = m")
      case True
      then show ?thesis using im len Si by simp
    next
      case False
      then have jm: "j < m" using j by simp
      then have "?i \<noteq> entry_index (es ! j)" using fresh by auto
      then have "?S' ! entry_index (es ! j) = S ! entry_index (es ! j)" by simp
      then show ?thesis using hit jm by simp
    qed
  qed
  have miss': "\<forall>i<length sel. (\<forall>j<Suc m. entry_index (es ! j) \<noteq> i) \<longrightarrow> ?S' ! i = sel ! i"
    using miss by simp
  from run' len' hit' miss' show ?case by blast
qed

lemma collect_indices:
  "map entry_index (collect_text_frames sel)
     = filter (\<lambda>i. typename (sel ! i) = ''TextFrame'') [0..<length sel]"
  by (simp add: collect_text_frames_def comp_def)

lemma collect_member:
  "e \<in> set (collect_text_frames sel) \<Longrightarrow>
   entry_index e < length sel \<and> typename (sel ! entry_index e) = ''TextFrame''
   \<and> entry_size e = font_size (sel ! entry_index e)"
  by (auto simp: collect_text_frames_def)

lemma sorted_entries_member:
  "e \<in> set (sort_by_size_descending (collect_text_frames sel)) \<Longrightarrow>
   entry_index e < length sel \<and> typename (sel ! entry_index e) = ''TextFrame''
   \<and> entry_size e = font_size (sel ! entry_index e)"
  using collect_member [of e sel] by (simp add: sort_by_size_descending_def)

lemma sorted_entries_mset:
  "mset (map entry_index (sort_by_size_descending (collect_text_frames sel)))
     = mset (filter (\<lambda>i. typename (sel ! i) = ''TextFrame'') [0..<length sel])"
proof -
  have "mset (map entry_index (sort_by_size_descending (collect_text_frames sel)))
          = mset (map entry_index (collect_text_frames sel))"
    by (simp add: sort_by_size_descending_def)
  then show ?thesis by (simp only: collect_indices)
qed

lemma sorted_entries_distinct:
  "distinct (map entry_index (sort_by_size_descending (collect_text_frames sel)))"
proof -
  have "distinct (filter (\<lambda>i. typename (sel ! i) = ''TextFrame'') [0..<length sel])" by simp
  then show ?thesis
    using mset_eq_imp_distinct_iff [OF sorted_entries_mset [of sel]] by simp
qed

lemma sorted_entries_length:
  "length (sort_by_size_descending (collect_text_frames sel))
     = length (filter (\<lambda>t. typename t = ''TextFrame'') sel)"
proof -
  have "length (filter (\<lambda>i. typename (sel ! i) = ''TextFrame'') [0..<length sel])
          = length (filter (\<lambda>t. typename t = ''TextFrame'') (map (nth sel) [0..<length sel]))"
    by (simp add: filter_map comp_def)
  then show ?thesis
    by (simp add: sort_by_size_descending_def collect_text_frames_def map_nth)
qed

text \<open>The run of \<open>applyHierarchyFix\<close>, by sorted position.\<close>

lemma applyHierarchyFix_run:
  fixes selection parameters
  defines "es \<equiv> sort_by_size_descending (collect_text_frames selection)"
  defines "new \<equiv> \<lambda>j. scaled_size parameters (length es) j (es ! j)"
  shows "snd (applyHierarchyFix selection parameters)
           = map (\<lambda>j. \<lparr>index = entry_index (es ! j), oldSize = entry_size (es ! j),
                        newSize = new j\<rparr>) [0..<length es]"
    and "length (fst (applyHierarchyFix selection parameters)) = length selection"
    and "\<forall>j<length es. fst (applyHierarchyFix selection parameters) ! entry_index (es ! j)
           = (selection ! entry_index (es ! j))\<lparr>font_size := new j\<rparr>"
    and "\<forall>i<length selection. (\<forall>j<length es. entry_index (es ! j) \<noteq> i)
           \<longrightarrow> fst (applyHierarchyFix selection parameters) ! i = selection ! i"
proof -
  have d: "distinct (map entry_index es)" unfolding es_def by (rule sorted_entries_distinct)
  have b: "\<forall>e\<in>set es. entry_index e < length selection"
    unfolding es_def using sorted_entries_member by blast
  have unf: "applyHierarchyFix selection parameters
     = fold (\<lambda>j (s, results).
            (s[entry_index (es ! j) := (s ! entry_index (es ! j))\<lparr>font_size := new j\<rparr>],
             results @ [\<lparr>index = entry_index (es ! j), oldSize = entry_size (es ! j),
                          newSize = new j\<rparr>]))
          [0..<length es] (selection, [])"
    by (simp add: applyHierarchyFix_def Let_def es_def new_def)
  from fix_fold [OF d b, of "length es" new] obtain S where
    "applyHierarchyFix selection parameters
        = (S, map (\<lambda>j. \<lparr>index = entry_index (es ! j), oldSize = entry_size (es ! j),
                           newSize = new j\<rparr>) [0..<length es])"
    "length S = length selection"
    "\<forall>j<length es. S ! entry_index (es ! j) = (selection ! entry_index (es ! j))\<lparr>font_size := new j\<rparr>"
    "\<forall>i<length selection. (\<forall>j<length es. entry_index (es ! j) \<noteq> i) \<longrightarrow> S ! i = selection ! i"
    unfolding unf by auto
  then show "snd (applyHierarchyFix selection parameters)
           = map (\<lambda>j. \<lparr>index = entry_index (es ! j), oldSize = entry_size (es ! j),
                        newSize = new j\<rparr>) [0..<length es]"
    and "length (fst (applyHierarchyFix selection parameters)) = length selection"
    and "\<forall>j<length es. fst (applyHierarchyFix selection parameters) ! entry_index (es ! j)
           = (selection ! entry_index (es ! j))\<lparr>font_size := new j\<rparr>"
    and "\<forall>i<length selection. (\<forall>j<length es. entry_index (es ! j) \<noteq> i)
           \<longrightarrow> fst (applyHierarchyFix selection parameters) ! i = selection ! i"
    by simp_all
qed


text \<open>
  When every computed size is the entry's own size, the fix leaves the selection as it was.
\<close>

lemma applyHierarchyFix_noop:
  assumes "\<forall>j<length (sort_by_size_descending (collect_text_frames selection)).
             scaled_size parameters (length (sort_by_size_descending (collect_text_frames selection))) j
               (sort_by_size_descending (collect_text_frames selection) ! j)
             = entry_size (sort_by_size_descending (collect_text_frames selection) ! j)"
  shows "fst (applyHierarchyFix selection parameters) = selection"
proof (rule nth_equalityI)
  show "length (fst (applyHierarchyFix selection parameters)) = length selection"
    by (rule applyHierarchyFix_run(2))
next
  let ?es = "sort_by_size_descending (collect_text_frames selection)"
  fix i assume "i < length (fst (applyHierarchyFix selection parameters))"
  then have i: "i < length selection" by (simp add: applyHierarchyFix_run(2))
  show "fst (applyHierarchyFix selection parameters) ! i = selection ! i"
  proof (cases "\<exists>j<length ?es. entry_index (?es ! j) = i")
    case True
    then obtain j where j: "j < length ?es" and ji: "entry_index (?es ! j) = i" by blast
    have "?es ! j \<in> set ?es" using j by simp
    then have sz: "entry_size (?es ! j) = font_size (selection ! i)"
      using sorted_entries_member [of "?es ! j" selection] ji by simp
    have "fst (applyHierarchyFix selection parameters) ! entry_index (?es ! j)
            = (selection ! entry_index (?es ! j))
                \<lparr>font_size := scaled_size parameters (length ?es) j (?es ! j)\<rparr>"
      using applyHierarchyFix_run(3) [of selection parameters] j by blast
    then show ?thesis using assms j sz ji by simp
  next
    case False
    then show ?thesis using applyHierarchyFix_run(4) [of selection parameters] i by blast
  qed
qed

lemma sorted_entries_descending:
  "sorted_wrt (\<ge>) (map entry_size (sort_by_size_descending (collect_text_frames sel)))"
proof -
  have "sorted (map (\<lambda>e. - entry_size e) (sort_by_size_descending (collect_text_frames sel)))"
    unfolding sort_by_size_descending_def by (rule sorted_sort_key)
  then show ?thesis by (simp add: sorted_map sorted_wrt_map)
qed


lemma map_by_position: "map (\<lambda>j. f (xs ! j)) [0..<length xs] = map f xs"
  by (rule nth_equalityI) simp_all

text \<open>
  C5. The claim assigns \<open>baseSize * scaleRatio^(n-1-k)\<close> whenever \<open>baseSize\<close> is supplied.
  The test \<open>parameters.baseSize ? \<dots> : item.size\<close> takes a supplied \<open>baseSize\<close> of 0 as absent:
  the sizes 24, 18, 12 stay, where the formula gives 0 for each.
\<close>

theorem applyHierarchyFix_zero_base_counterexample:
  "baseSize (sample_parameters\<lparr>baseSize := Some 0, scaleRatio := Some 1.25\<rparr>) = Some 0
   \<and> map font_size (fst (applyHierarchyFix
         [sample_frame\<lparr>font_size := 24\<rparr>, sample_frame\<lparr>font_size := 18\<rparr>,
          sample_frame\<lparr>font_size := 12\<rparr>]
         (sample_parameters\<lparr>baseSize := Some 0, scaleRatio := Some 1.25\<rparr>)))
       = [24, 18, 12]
   \<and> [24, 18, 12] \<noteq> [0 * 1.25 ^ 2, 0 * 1.25 ^ 1, 0 * 1.25 ^ (0::nat) :: real]"
  by (simp add: applyHierarchyFix_def collect_text_frames_def sort_by_size_descending_def
        scaled_size_def sample_parameters_def sample_frame_def)

text \<open>
  C5, as amended (a base size other than 0). Let \<open>n\<close> be the number of text frames of the
  selection. \<open>applyHierarchyFix\<close> returns \<open>n\<close> results, one for each text frame, in descending
  order of the frames' current sizes: result \<open>k\<close> is the frame ranked \<open>k\<close> (0 the largest).
  When \<open>baseSize\<close> is supplied and is not 0, the new size of rank \<open>k\<close> is
  \<open>baseSize * ratio^(n-1-k)\<close>, where \<open>ratio\<close> is \<open>scaleRatio\<close>, or 1.25 when that is absent or 0,
  and the frame is left with that size. When \<open>baseSize\<close> is absent or 0 every new size is the
  old one and the selection is unchanged. Text frames of sizes 24, 18, 12 with ratio 1.25 and
  base 12 end with the sizes 18.75, 15, 12.
\<close>

theorem applyHierarchyFix_scale:
  "let results = snd (applyHierarchyFix selection parameters);
       selection' = fst (applyHierarchyFix selection parameters);
       n = length (filter (\<lambda>t. typename t = ''TextFrame'') selection);
       ratio = or_default (scaleRatio parameters) 1.25
   in length results = n
      \<and> mset (map index results)
          = mset (filter (\<lambda>i. typename (selection ! i) = ''TextFrame'') [0..<length selection])
      \<and> sorted_wrt (\<ge>) (map oldSize results)
      \<and> (\<forall>k<n. oldSize (results ! k) = font_size (selection ! index (results ! k))
               \<and> font_size (selection' ! index (results ! k)) = newSize (results ! k)
               \<and> (\<forall>b. baseSize parameters = Some b \<and> b \<noteq> 0
                      \<longrightarrow> newSize (results ! k) = b * ratio ^ (n - 1 - k))
               \<and> (\<not> truthy (baseSize parameters)
                      \<longrightarrow> newSize (results ! k) = oldSize (results ! k)))
      \<and> (\<not> truthy (baseSize parameters) \<longrightarrow> selection' = selection)
      \<and> (typename t = ''TextFrame'' \<longrightarrow>
           map font_size (fst (applyHierarchyFix
             [t\<lparr>font_size := 24\<rparr>, t\<lparr>font_size := 18\<rparr>, t\<lparr>font_size := 12\<rparr>]
             (parameters\<lparr>baseSize := Some 12, scaleRatio := Some 1.25\<rparr>)))
           = [18.75, 15, 12])"
proof -
  let ?es = "sort_by_size_descending (collect_text_frames selection)"
  let ?n = "length (filter (\<lambda>t. typename t = ''TextFrame'') selection)"
  let ?new = "\<lambda>j. scaled_size parameters (length ?es) j (?es ! j)"
  let ?results = "snd (applyHierarchyFix selection parameters)"
  let ?sel' = "fst (applyHierarchyFix selection parameters)"
  let ?ratio = "or_default (scaleRatio parameters) 1.25"
  have n: "length ?es = ?n" by (rule sorted_entries_length)
  have res: "?results = map (\<lambda>j. \<lparr>index = entry_index (?es ! j), oldSize = entry_size (?es ! j),
                        newSize = ?new j\<rparr>) [0..<length ?es]"
    by (rule applyHierarchyFix_run(1))
  have idx: "map index ?results = map entry_index ?es"
    by (simp add: res comp_def map_by_position)
  have old: "map oldSize ?results = map entry_size ?es"
    by (simp add: res comp_def map_by_position)
  have c1: "length ?results = ?n" using n by (simp add: res)
  have c2: "mset (map index ?results)
          = mset (filter (\<lambda>i. typename (selection ! i) = ''TextFrame'') [0..<length selection])"
    unfolding idx by (rule sorted_entries_mset)
  have c3: "sorted_wrt (\<ge>) (map oldSize ?results)"
    unfolding old by (rule sorted_entries_descending)
  have c4: "\<forall>k<?n. oldSize (?results ! k) = font_size (selection ! index (?results ! k))
               \<and> font_size (?sel' ! index (?results ! k)) = newSize (?results ! k)
               \<and> (\<forall>b. baseSize parameters = Some b \<and> b \<noteq> 0
                      \<longrightarrow> newSize (?results ! k) = b * ?ratio ^ (?n - 1 - k))
               \<and> (\<not> truthy (baseSize parameters)
                      \<longrightarrow> newSize (?results ! k) = oldSize (?results ! k))"
  proof (intro allI impI)
    fix k assume "k < ?n"
    then have k: "k < length ?es" using n by simp
    have rk: "?results ! k = \<lparr>index = entry_index (?es ! k), oldSize = entry_size (?es ! k),
                        newSize = ?new k\<rparr>"
      using k by (simp add: res)
    have "?es ! k \<in> set ?es" using k by simp
    then have sz: "entry_size (?es ! k) = font_size (selection ! entry_index (?es ! k))"
      using sorted_entries_member [of "?es ! k" selection] by simp
    have wr: "?sel' ! entry_index (?es ! k)
            = (selection ! entry_index (?es ! k))\<lparr>font_size := ?new k\<rparr>"
      using applyHierarchyFix_run(3) [of selection parameters] k by blast
    have sc: "\<forall>b. baseSize parameters = Some b \<and> b \<noteq> 0 \<longrightarrow> ?new k = b * ?ratio ^ (?n - 1 - k)"
      by (simp add: scaled_size_def Let_def n)
    have un: "\<not> truthy (baseSize parameters) \<longrightarrow> ?new k = entry_size (?es ! k)"
      by (simp add: scaled_size_def truthy_def Let_def split: option.splits)
    show "oldSize (?results ! k) = font_size (selection ! index (?results ! k))
               \<and> font_size (?sel' ! index (?results ! k)) = newSize (?results ! k)
               \<and> (\<forall>b. baseSize parameters = Some b \<and> b \<noteq> 0
                      \<longrightarrow> newSize (?results ! k) = b * ?ratio ^ (?n - 1 - k))
               \<and> (\<not> truthy (baseSize parameters)
                      \<longrightarrow> newSize (?results ! k) = oldSize (?results ! k))"
      using sz wr sc un by (simp add: rk)
  qed
  have c5: "\<not> truthy (baseSize parameters) \<longrightarrow> ?sel' = selection"
  proof
    assume "\<not> truthy (baseSize parameters)"
    then have "\<forall>j<length ?es. scaled_size parameters (length ?es) j (?es ! j) = entry_size (?es ! j)"
      by (simp add: scaled_size_def truthy_def Let_def split: option.splits)
    then show "?sel' = selection" by (rule applyHierarchyFix_noop)
  qed
  have c6: "typename t = ''TextFrame'' \<longrightarrow>
           map font_size (fst (applyHierarchyFix
             [t\<lparr>font_size := 24\<rparr>, t\<lparr>font_size := 18\<rparr>, t\<lparr>font_size := 12\<rparr>]
             (parameters\<lparr>baseSize := Some 12, scaleRatio := Some 1.25\<rparr>)))
           = [18.75, 15, 12]"
    by (simp add: applyHierarchyFix_def collect_text_frames_def sort_by_size_descending_def
          scaled_size_def or_default_def Let_def power2_eq_square)
  from c1 c2 c3 c4 c5 c6 show ?thesis by (simp only: Let_def) 
qed

theorem applyHierarchyFix_scale_witness:
  "typename sample_frame = ''TextFrame''
   \<and> map font_size (fst (applyHierarchyFix
         [sample_frame\<lparr>font_size := 24\<rparr>, sample_frame\<lparr>font_size := 18\<rparr>,
          sample_frame\<lparr>font_size := 12\<rparr>]
         (sample_parameters\<lparr>baseSize := Some 12, scaleRatio := Some 1.25\<rparr>)))
       = [18.75, 15, 12]
   \<and> \<not> truthy (baseSize sample_parameters)
   \<and> fst (applyHierarchyFix [sample_frame\<lparr>font_size := 24\<rparr>, sample_frame\<lparr>font_size := 18\<rparr>]
            sample_parameters)
       = [sample_frame\<lparr>font_size := 24\<rparr>, sample_frame\<lparr>font_size := 18\<rparr>]"
proof -
  have a: "map font_size (fst (applyHierarchyFix
         [sample_frame\<lparr>font_size := 24\<rparr>, sample_frame\<lparr>font_size := 18\<rparr>,
          sample_frame\<lparr>font_size := 12\<rparr>]
         (sample_parameters\<lparr>baseSize := Some 12, scaleRatio := Some 1.25\<rparr>)))
       = [18.75, 15, 12]"
    using applyHierarchyFix_scale
      [where selection = "[]" and parameters = sample_parameters and t = sample_frame]
    by (simp add: Let_def sample_frame_def)
  have b: "fst (applyHierarchyFix [sample_frame\<lparr>font_size := 24\<rparr>, sample_frame\<lparr>font_size := 18\<rparr>]
            sample_parameters)
       = [sample_frame\<lparr>font_size := 24\<rparr>, sample_frame\<lparr>font_size := 18\<rparr>]"
    using applyHierarchyFix_scale
      [where selection = "[sample_frame\<lparr>font_size := 24\<rparr>, sample_frame\<lparr>font_size := 18\<rparr>]"
         and parameters = sample_parameters and t = sample_frame]
    by (simp add: Let_def sample_parameters_def truthy_def)
  show ?thesis using a b by (simp add: sample_frame_def sample_parameters_def truthy_def)
qed


text \<open>
  The keys of a list sorted by key are the sorted keys.
\<close>

lemma map_sort_key: "map f (sort_key f xs) = sort (map f xs)"
proof -
  have "mset (map f (sort_key f xs)) = mset (map f xs)" by simp
  moreover have "sorted (map f (sort_key f xs))" by (rule sorted_sort_key)
  ultimately show ?thesis by (metis properties_for_sort)
qed

lemma applyHierarchyFix_typename:
  assumes "i < length selection"
  shows "typename (fst (applyHierarchyFix selection parameters) ! i) = typename (selection ! i)"
proof (cases "\<exists>j<length (sort_by_size_descending (collect_text_frames selection)).
                entry_index (sort_by_size_descending (collect_text_frames selection) ! j) = i")
  case True
  then obtain j where "j < length (sort_by_size_descending (collect_text_frames selection))"
    and "entry_index (sort_by_size_descending (collect_text_frames selection) ! j) = i" by blast
  then show ?thesis using applyHierarchyFix_run(3) [of selection parameters] by force
next
  case False
  then show ?thesis using applyHierarchyFix_run(4) [of selection parameters] assms by force
qed

lemma scaled_sizes_sorted:
  fixes b r :: real
  assumes "0 \<le> b" and "1 \<le> r"
  shows "sorted (map (\<lambda>j. - (b * r ^ (n - j - 1))) [0..<n])"
proof -
  have "- (b * r ^ (n - i - 1)) \<le> - (b * r ^ (n - j - 1))" if "i \<le> j" for i j
  proof -
    have "r ^ (n - j - 1) \<le> r ^ (n - i - 1)"
      using assms(2) that by (intro power_increasing) simp_all
    then have "b * r ^ (n - j - 1) \<le> b * r ^ (n - i - 1)"
      using assms(1) by (rule mult_left_mono)
    then show ?thesis by simp
  qed
  then show ?thesis by (simp add: sorted_iff_nth_mono)
qed

text \<open>
  C8. The claim is made for every supplied \<open>scaleRatio\<close>. With a ratio below 1 the sizes
  that the first application assigns grow with the rank, so the second application ranks
  the frames the other way round: frames of sizes 24 and 12 with base 12 and ratio 0.5 get
  6 and 12 the first time and 12 and 6 the second.
\<close>

theorem applyHierarchyFix_idempotent_counterexample:
  "map font_size (fst (applyHierarchyFix
      [sample_frame\<lparr>font_size := 24\<rparr>, sample_frame\<lparr>font_size := 12\<rparr>]
      (sample_parameters\<lparr>baseSize := Some 12, scaleRatio := Some 0.5\<rparr>))) = [6, 12]
   \<and> map font_size (fst (applyHierarchyFix
      (fst (applyHierarchyFix
         [sample_frame\<lparr>font_size := 24\<rparr>, sample_frame\<lparr>font_size := 12\<rparr>]
         (sample_parameters\<lparr>baseSize := Some 12, scaleRatio := Some 0.5\<rparr>)))
      (sample_parameters\<lparr>baseSize := Some 12, scaleRatio := Some 0.5\<rparr>))) = [12, 6]"
  by (simp add: applyHierarchyFix_def collect_text_frames_def sort_by_size_descending_def
        scaled_size_def or_default_def Let_def sample_parameters_def sample_frame_def)

text \<open>
  C8, as amended (a ratio of at least 1 and a base size that is not negative). Applying
  \<open>applyHierarchyFix\<close> with the same parameters to the selection that a first application
  left gives every frame the size it already has: the selection does not change. The ratio
  is the effective one, 1.25 when \<open>scaleRatio\<close> is absent or 0. Frames of equal size get
  different sizes in the first application (for a ratio above 1) and keep them in the second.
\<close>

theorem applyHierarchyFix_idempotent:
  assumes "1 \<le> or_default (scaleRatio parameters) 1.25"
    and "\<forall>b. baseSize parameters = Some b \<longrightarrow> 0 \<le> b"
  shows "fst (applyHierarchyFix (fst (applyHierarchyFix selection parameters)) parameters)
           = fst (applyHierarchyFix selection parameters)"
proof (cases "truthy (baseSize parameters)")
  case False
  let ?es = "sort_by_size_descending (collect_text_frames selection)"
  from False
  have "\<forall>j<length ?es. scaled_size parameters (length ?es) j (?es ! j) = entry_size (?es ! j)"
    by (simp add: scaled_size_def truthy_def Let_def split: option.splits)
  then have "fst (applyHierarchyFix selection parameters) = selection"
    by (rule applyHierarchyFix_noop)
  then show ?thesis by simp
next
  case True
  then obtain b where b: "baseSize parameters = Some b" "b \<noteq> 0"
    by (auto simp: truthy_def split: option.splits)
  then have b0: "0 \<le> b" using assms(2) by simp
  let ?r = "or_default (scaleRatio parameters) 1.25"
  let ?es = "sort_by_size_descending (collect_text_frames selection)"
  let ?n = "length ?es"
  let ?sel1 = "fst (applyHierarchyFix selection parameters)"
  let ?es2 = "sort_by_size_descending (collect_text_frames ?sel1)"
  let ?new = "\<lambda>j. b * ?r ^ (?n - j - 1)"
  let ?tf = "\<lambda>sel. filter (\<lambda>i. typename (sel ! i) = ''TextFrame'') [0..<length sel]"
  have sc: "scaled_size parameters m j e = b * ?r ^ (m - j - 1)" for m j e
    using b by (simp add: scaled_size_def Let_def)
  have len1: "length ?sel1 = length selection" by (rule applyHierarchyFix_run(2))
  have tf: "?tf ?sel1 = ?tf selection"
    unfolding len1 by (rule filter_cong) (simp_all add: applyHierarchyFix_typename)
  have size1: "font_size (?sel1 ! entry_index (?es ! j)) = ?new j" if "j < ?n" for j
    using applyHierarchyFix_run(3) [of selection parameters] that by (simp add: sc)
  have "map entry_size (collect_text_frames ?sel1) = map (\<lambda>i. font_size (?sel1 ! i)) (?tf ?sel1)"
    by (simp add: collect_text_frames_def comp_def)
  then have "mset (map entry_size (collect_text_frames ?sel1))
               = image_mset (\<lambda>i. font_size (?sel1 ! i)) (mset (?tf selection))"
    by (simp add: tf)
  also have "\<dots> = image_mset (\<lambda>i. font_size (?sel1 ! i)) (mset (map entry_index ?es))"
    by (simp only: sorted_entries_mset)
  also have "\<dots> = mset (map (\<lambda>e. font_size (?sel1 ! entry_index e)) ?es)"
    by (simp add: comp_def multiset.map_comp)
  also have "map (\<lambda>e. font_size (?sel1 ! entry_index e)) ?es
               = map (\<lambda>j. font_size (?sel1 ! entry_index (?es ! j))) [0..<?n]"
    by (rule map_by_position [symmetric])
  also have "\<dots> = map ?new [0..<?n]"
    using size1 by simp
  finally have sizes: "mset (map entry_size (collect_text_frames ?sel1)) = mset (map ?new [0..<?n])" .
  have "map (\<lambda>e. - entry_size e) ?es2 = sort (map (\<lambda>e. - entry_size e) (collect_text_frames ?sel1))"
    unfolding sort_by_size_descending_def by (rule map_sort_key)
  also have "\<dots> = map (\<lambda>j. - ?new j) [0..<?n]"
  proof (rule properties_for_sort)
    have "mset (map (\<lambda>j. - ?new j) [0..<?n]) = image_mset uminus (mset (map ?new [0..<?n]))"
      by (simp add: comp_def multiset.map_comp)
    also have "\<dots> = image_mset uminus (mset (map entry_size (collect_text_frames ?sel1)))"
      by (simp only: sizes)
    also have "\<dots> = mset (map (\<lambda>e. - entry_size e) (collect_text_frames ?sel1))"
      by (simp add: comp_def multiset.map_comp)
    finally show "mset (map (\<lambda>j. - ?new j) [0..<?n])
                    = mset (map (\<lambda>e. - entry_size e) (collect_text_frames ?sel1))" .
  next
    show "sorted (map (\<lambda>j. - ?new j) [0..<?n])"
      using b0 assms(1) by (rule scaled_sizes_sorted)
  qed
  finally have eq: "map (\<lambda>e. - entry_size e) ?es2 = map (\<lambda>j. - ?new j) [0..<?n]" .
  then have "length (map (\<lambda>e. - entry_size e) ?es2) = length (map (\<lambda>j. - ?new j) [0..<?n])"
    by (simp only:)
  then have n2: "length ?es2 = ?n" by simp
  have "\<forall>j<length ?es2. scaled_size parameters (length ?es2) j (?es2 ! j) = entry_size (?es2 ! j)"
  proof (intro allI impI)
    fix j assume j: "j < length ?es2"
    then have "map (\<lambda>e. - entry_size e) ?es2 ! j = map (\<lambda>j. - ?new j) [0..<?n] ! j"
      by (simp only: eq)
    then have "entry_size (?es2 ! j) = ?new j" using j n2 by simp
    then show "scaled_size parameters (length ?es2) j (?es2 ! j) = entry_size (?es2 ! j)"
      by (simp add: sc n2)
  qed
  then show ?thesis by (rule applyHierarchyFix_noop)
qed

theorem applyHierarchyFix_idempotent_witness:
  "1 \<le> or_default (scaleRatio (sample_parameters\<lparr>baseSize := Some 12\<rparr>)) 1.25
   \<and> fst (applyHierarchyFix
       (fst (applyHierarchyFix
          [sample_frame\<lparr>font_size := 24\<rparr>, sample_frame\<lparr>font_size := 12\<rparr>]
          (sample_parameters\<lparr>baseSize := Some 12\<rparr>)))
       (sample_parameters\<lparr>baseSize := Some 12\<rparr>))
     = fst (applyHierarchyFix
          [sample_frame\<lparr>font_size := 24\<rparr>, sample_frame\<lparr>font_size := 12\<rparr>]
          (sample_parameters\<lparr>baseSize := Some 12\<rparr>))"
  using applyHierarchyFix_idempotent
    [where parameters = "sample_parameters\<lparr>baseSize := Some 12\<rparr>"
       and selection = "[sample_frame\<lparr>font_size := 24\<rparr>, sample_frame\<lparr>font_size := 12\<rparr>]"]
  by (simp add: sample_parameters_def or_default_def)


end
